theory Spec2Isabelle
  imports Complex_Main
begin

section \<open>JavaScript numbers\<close>

text \<open>
  StageGL (src/display/Stage.ts, second module of the file) computes with JavaScript
  numbers. A number is NaN, an infinity or a finite value; finite values are kept as
  exact reals. The products and the halving modelled below are exact on doubles for the
  values that occur (integers below \<open>2^53\<close>). One sum is not: \<open>_drawID + count\<close> in
  \<open>purgeTextures\<close>, whose \<open>count\<close> is any number; there the rounding of the exact sum to
  a double is a parameter of the model (\<open>js_sum\<close>). The two zeros of IEEE arithmetic are
  one value here.
\<close>

datatype jsnum = NaN | NegInf | Fin real | PosInf

fun js_lt :: "jsnum \<Rightarrow> jsnum \<Rightarrow> bool" where
  "js_lt NaN _ = False"
| "js_lt _ NaN = False"
| "js_lt NegInf NegInf = False"
| "js_lt NegInf _ = True"
| "js_lt (Fin a) (Fin b) = (a < b)"
| "js_lt (Fin a) PosInf = True"
| "js_lt (Fin a) NegInf = False"
| "js_lt PosInf _ = False"

fun js_le :: "jsnum \<Rightarrow> jsnum \<Rightarrow> bool" where
  "js_le NaN _ = False"
| "js_le _ NaN = False"
| "js_le NegInf _ = True"
| "js_le (Fin a) (Fin b) = (a \<le> b)"
| "js_le (Fin a) PosInf = True"
| "js_le (Fin a) NegInf = False"
| "js_le PosInf PosInf = True"
| "js_le PosInf _ = False"

text \<open>\<open>Math.min\<close> and \<open>Math.max\<close>: NaN if an argument is NaN.\<close>

definition js_min :: "jsnum \<Rightarrow> jsnum \<Rightarrow> jsnum" where
  "js_min a b = (if a = NaN \<or> b = NaN then NaN else if js_lt b a then b else a)"

definition js_max :: "jsnum \<Rightarrow> jsnum \<Rightarrow> jsnum" where
  "js_max a b = (if a = NaN \<or> b = NaN then NaN else if js_lt a b then b else a)"

text \<open>Truthiness of a number: NaN and 0 are falsy. \<open>a || b\<close> on numbers.\<close>

definition js_truthy :: "jsnum \<Rightarrow> bool" where
  "js_truthy a = (a \<noteq> NaN \<and> a \<noteq> Fin 0)"

definition js_or :: "jsnum \<Rightarrow> jsnum \<Rightarrow> jsnum" where
  "js_or a b = (if js_truthy a then a else b)"

fun js_mul :: "jsnum \<Rightarrow> jsnum \<Rightarrow> jsnum" where
  "js_mul NaN _ = NaN"
| "js_mul _ NaN = NaN"
| "js_mul (Fin a) (Fin b) = Fin (a * b)"
| "js_mul (Fin a) PosInf = (if a = 0 then NaN else if 0 < a then PosInf else NegInf)"
| "js_mul (Fin a) NegInf = (if a = 0 then NaN else if 0 < a then NegInf else PosInf)"
| "js_mul PosInf (Fin b) = (if b = 0 then NaN else if 0 < b then PosInf else NegInf)"
| "js_mul NegInf (Fin b) = (if b = 0 then NaN else if 0 < b then NegInf else PosInf)"
| "js_mul PosInf PosInf = PosInf"
| "js_mul NegInf NegInf = PosInf"
| "js_mul PosInf NegInf = NegInf"
| "js_mul NegInf PosInf = NegInf"

fun js_add :: "jsnum \<Rightarrow> jsnum \<Rightarrow> jsnum" where
  "js_add NaN _ = NaN"
| "js_add _ NaN = NaN"
| "js_add (Fin a) (Fin b) = Fin (a + b)"
| "js_add (Fin a) PosInf = PosInf"
| "js_add (Fin a) NegInf = NegInf"
| "js_add PosInf NegInf = NaN"
| "js_add NegInf PosInf = NaN"
| "js_add PosInf _ = PosInf"
| "js_add NegInf _ = NegInf"

text \<open>\<open>a + b\<close> on doubles: the exact sum of two finite values is rounded to a double
  (possibly an infinity) by \<open>rd\<close>; the other cases need no rounding.\<close>

definition js_sum :: "(real \<Rightarrow> jsnum) \<Rightarrow> jsnum \<Rightarrow> jsnum \<Rightarrow> jsnum" where
  "js_sum rd a b =
     (case a of
        Fin x \<Rightarrow> (case b of Fin y \<Rightarrow> rd (x + y) | _ \<Rightarrow> js_add a b)
      | _ \<Rightarrow> js_add a b)"

text \<open>\<open>x / 2\<close>, the only division the modelled code performs on a number.\<close>

fun js_half :: "jsnum \<Rightarrow> jsnum" where
  "js_half (Fin a) = Fin (a / 2)"
| "js_half x = x"

text \<open>
  \<open>x | 0\<close> is ECMAScript's ToInt32: NaN and the infinities give 0, a finite value is
  truncated towards zero, reduced modulo \<open>2^32\<close> and read as a signed 32-bit integer.
\<close>

definition wrap_int32 :: "int \<Rightarrow> int" where
  "wrap_int32 i = (let m = i mod 4294967296 in if 2147483648 \<le> m then m - 4294967296 else m)"

definition js_trunc :: "real \<Rightarrow> int" where
  "js_trunc r = (if 0 \<le> r then \<lfloor>r\<rfloor> else - \<lfloor>- r\<rfloor>)"

fun to_int32 :: "jsnum \<Rightarrow> int" where
  "to_int32 (Fin r) = wrap_int32 (js_trunc r)"
| "to_int32 _ = 0"

text \<open>
  \<open>a % b\<close> on integers: the sign follows the dividend; a zero divisor gives NaN
  (\<open>None\<close>). \<open>!x\<close> of such a result is true for NaN and for 0.
\<close>

definition js_rem :: "int \<Rightarrow> int \<Rightarrow> int option" where
  "js_rem a b = (if b = 0 then None else Some (sgn a * (\<bar>a\<bar> mod \<bar>b\<bar>)))"

definition js_falsy :: "int option \<Rightarrow> bool" where
  "js_falsy r = (r = None \<or> r = Some 0)"


section \<open>Construction: batch capacity and the auto-purge interval\<close>

definition INDICES_PER_CARD :: int where "INDICES_PER_CARD = 6"
definition DEFAULT_MAX_BATCH_SIZE :: int where "DEFAULT_MAX_BATCH_SIZE = 10920"
definition DEFAULT_MIN_BATCH_SIZE :: int where "DEFAULT_MIN_BATCH_SIZE = 170"

text \<open>
  The constructor's assignment to \<open>_maxBatchVertexCount\<close>. The argument is
  \<open>Number(batchSize)\<close>: the option is typed \<open>string|number\<close> and may be absent, and
  \<open>Number\<close> of an absent or non-numeric value is NaN.
  \<^verbatim>\<open>Math.max(Math.min(Number(batchSize) || DEFAULT_MAX_BATCH_SIZE, DEFAULT_MAX_BATCH_SIZE),
            DEFAULT_MIN_BATCH_SIZE) * INDICES_PER_CARD\<close>
\<close>

definition maxBatchVertexCount_of :: "jsnum \<Rightarrow> jsnum" where
  "maxBatchVertexCount_of nb =
     js_mul
       (js_max
          (js_min (js_or nb (Fin (of_int DEFAULT_MAX_BATCH_SIZE)))
                  (Fin (of_int DEFAULT_MAX_BATCH_SIZE)))
          (Fin (of_int DEFAULT_MIN_BATCH_SIZE)))
       (Fin (of_int INDICES_PER_CARD))"

text \<open>
  The capacity as the specification words it:
  \<open>min(max(configuredBatchSize, MIN_BATCH_SIZE), MAX_BATCH_SIZE) * verticesPerQuad\<close>.
\<close>

definition spec_capacity :: "jsnum \<Rightarrow> jsnum" where
  "spec_capacity nb =
     js_mul
       (js_min
          (js_max nb (Fin (of_int DEFAULT_MIN_BATCH_SIZE)))
          (Fin (of_int DEFAULT_MAX_BATCH_SIZE)))
       (Fin (of_int INDICES_PER_CARD))"

text \<open>
  The \<open>autoPurge\<close> setter, and the constructor's use of it
  (\<open>autoPurge && (this.autoPurge = autoPurge)\<close> on a field initialised to 1200).
\<close>

definition set_autoPurge :: "jsnum \<Rightarrow> jsnum" where
  "set_autoPurge v =
     (let value = (if v = NaN then Fin 1200 else v) in
      if value \<noteq> Fin (- 1) then (if js_lt value (Fin 10) then Fin 10 else value)
      else value)"

definition constructed_autoPurge :: "jsnum option \<Rightarrow> jsnum" where
  "constructed_autoPurge opt =
     (case opt of
        None \<Rightarrow> Fin 1200
      | Some v \<Rightarrow> if js_truthy v then set_autoPurge v else Fin 1200)"

text \<open>
  The scheduling test of \<open>draw\<close>:
  \<^verbatim>\<open>this._autoPurge !== -1 && !(this._drawID % ((this._autoPurge/2)|0))\<close>
\<close>

definition purge_modulus :: "jsnum \<Rightarrow> int" where
  "purge_modulus ap = to_int32 (js_half ap)"

definition autoPurge_due :: "int \<Rightarrow> jsnum \<Rightarrow> bool" where
  "autoPurge_due did ap = (ap \<noteq> Fin (- 1) \<and> js_falsy (js_rem did (purge_modulus ap)))"

text \<open>The interval invariant: the sentinel, or at least 10.\<close>

definition autoPurge_ok :: "jsnum \<Rightarrow> bool" where
  "autoPurge_ok ap = (ap = Fin (- 1) \<or> js_le (Fin 10) ap)"


section \<open>Initialisation: the main shader's retry loop\<close>

text \<open>
  \<open>_initMaterials\<close> compiles the batch shader for \<open>_batchTextureCount\<close> samplers and,
  when the driver rejects it, retries with \<open>(count / 2) | 0\<close>. Whether the driver
  accepts a shader is outside the program; it is the parameter \<open>ok\<close>, a function of
  the sampler count written into the shader text.
\<close>

datatype init_error = CannotCompileShader

definition halve_count :: "int \<Rightarrow> int" where
  "halve_count c = to_int32 (js_half (Fin (of_int c)))"

lemma wrap_int32_le: "0 \<le> i \<Longrightarrow> wrap_int32 i \<le> i"
proof -
  assume h: "0 \<le> i"
  have "i mod 4294967296 \<le> i" using h by (rule zmod_le_nonneg_dividend)
  then show ?thesis by (simp add: wrap_int32_def Let_def)
qed

lemma wrap_int32_id: "0 \<le> i \<Longrightarrow> i < 2147483648 \<Longrightarrow> wrap_int32 i = i"
  by (simp add: wrap_int32_def Let_def)

lemma js_trunc_half: "0 \<le> c \<Longrightarrow> js_trunc (real_of_int c / 2) = c div 2"
proof -
  assume "0 \<le> c"
  have "\<lfloor>real_of_int c / real_of_int 2\<rfloor> = c div 2" by (rule floor_divide_of_int_eq)
  then show ?thesis using \<open>0 \<le> c\<close> by (simp add: js_trunc_def)
qed

lemma halve_count_less: "1 < c \<Longrightarrow> halve_count c < c"
proof -
  assume h: "1 < c"
  have "wrap_int32 (c div 2) \<le> c div 2" using h by (intro wrap_int32_le) simp
  moreover have "c div 2 < c" using h by simp
  ultimately show ?thesis using h by (simp add: halve_count_def js_trunc_half)
qed

lemma halve_count_div: "1 < c \<Longrightarrow> c < 4294967296 \<Longrightarrow> halve_count c = c div 2"
  by (simp add: halve_count_def js_trunc_half wrap_int32_id)

function compileMainShader :: "(int \<Rightarrow> bool) \<Rightarrow> int \<Rightarrow> init_error + int" where
  "compileMainShader ok c =
     (if ok c then Inr c
      else if c \<le> 1 then Inl CannotCompileShader
      else compileMainShader ok (halve_count c))"
  by pat_completeness auto
termination
  by (relation "measure (\<lambda>(ok, c). nat c)") (simp_all add: not_le halve_count_less)

declare compileMainShader.simps [simp del]

text \<open>The counts the loop attempts, in order.\<close>

function attempts :: "(int \<Rightarrow> bool) \<Rightarrow> int \<Rightarrow> int list" where
  "attempts ok c =
     (if ok c \<or> c \<le> 1 then [c] else c # attempts ok (halve_count c))"
  by pat_completeness auto
termination
  by (relation "measure (\<lambda>(ok, c). nat c)") (simp_all add: not_le halve_count_less)

declare attempts.simps [simp del]


section \<open>Objects, GL state and the stage record\<close>

text \<open>
  Images, canvases and GL textures are JavaScript objects on which StageGL keeps its
  bookkeeping (\<open>_storeID\<close>, \<open>_drawID\<close>, \<open>_batchID\<close>, \<open>_imageData\<close>, \<open>_activeIndex\<close>,
  \<open>_invalid\<close>, \<open>_isCanvas\<close>, \<open>_frameBuffer\<close>). They live in one heap, addressed by
  reference, so that two places holding the same object see the same fields. An
  \<open>undefined\<close> property is \<open>None\<close>. \<open>o_loaded\<close> stands for
  \<open>image.complete || image.naturalWidth\<close>.
\<close>

type_synonym ref = nat

datatype obj_kind = ImageEl string | CanvasEl | TextureObj | OtherEl

record obj =
  o_kind :: obj_kind
  o_storeID :: "int option"
  o_drawID :: "int option"
  o_batchID :: "int option"
  o_imageData :: "ref list option"
  o_activeIndex :: "int option"
  o_invalid :: "bool option"
  o_isCanvas :: bool
  o_loaded :: bool
  o_frameBuffer :: bool

definition new_obj :: "obj_kind \<Rightarrow> obj" where
  "new_obj k = \<lparr>o_kind = k, o_storeID = None, o_drawID = None, o_batchID = None,
     o_imageData = None, o_activeIndex = None, o_invalid = None, o_isCanvas = False,
     o_loaded = False, o_frameBuffer = False\<rparr>"

text \<open>
  The GL blend state set by \<open>blendEquationSeparate\<close> and \<open>blendFuncSeparate\<close>; a GL
  constant is written by its name. A \<open>BLEND_SOURCES\<close> entry gives some of the six
  constants and possibly a fragment shader; the GLSL text is kept symbolic, the source of a
  mode being named by the mode.
\<close>

record blend =
  eqRGB :: string
  srcRGB :: string
  dstRGB :: string
  eqA :: string
  srcA :: string
  dstA :: string

record blend_source =
  b_eqRGB :: "string option"
  b_srcRGB :: "string option"
  b_dstRGB :: "string option"
  b_eqA :: "string option"
  b_srcA :: "string option"
  b_dstA :: "string option"
  b_shader :: "string option"

datatype program = BatchProgram int | CoverProgram "string option"

record shaderData =
  sd_blend :: blend
  sd_immediate :: bool
  sd_shader :: program

datatype config = DefaultConfig | MicroConfig

datatype target = TUndefined | TNull | TStage | TTex ref

datatype src_key = Url string | CanvasKey int

text \<open>
  History of what reached the vertex arrays and the GPU. \<open>QuadWritten c m cfg i\<close>: six
  vertices written at cursor \<open>c\<close> while the render mode was \<open>m\<close>, into the arrays of \<open>cfg\<close>,
  for texture slot \<open>i\<close>. \<open>BatchDrawn n b p cfg ms\<close>: \<open>drawArrays\<close> of \<open>n\<close> vertices by
  \<open>_renderBatch\<close> under blend state \<open>b\<close> and program \<open>p\<close>, reading the buffers of \<open>cfg\<close>;
  \<open>ms\<close> are the render modes of the quads the cursor counted. \<open>CoverDrawn\<close>: the
  \<open>drawArrays\<close> of \<open>_renderCover\<close>. \<open>SlotEvicted i t st b\<close>: slot \<open>i\<close>, held by \<open>t\<close> whose
  \<open>_batchID\<close> was \<open>st\<close>, was given to another texture while the batch counter was \<open>b\<close>.
  \<open>TextureDeleted t\<close>: \<open>gl.deleteTexture\<close>. No branch of the program reads \<open>trace\<close> or
  \<open>pending\<close>.
\<close>

datatype event =
    QuadWritten int string config "int option"
  | BatchDrawn int blend "program option" config "string list"
  | CoverDrawn blend "program option"
  | SlotEvicted int "ref option" "int option" int
  | TextureDeleted ref

text \<open>
  The fields of StageGL the modelled methods read or write, under their source names
  without the leading underscore. \<open>gl_blend\<close> is the context's blend state,
  \<open>gl_compiles\<close> says which programs the driver links. Counters are integers.
  \<open>bufferGroupCount\<close> is \<open>None\<close> while \<open>_attributeConfig\<close> is empty; once
  \<open>_createBuffers\<close> has run it is the \<open>groupCount\<close> that sized the four arrays of the
  default configuration (\<open>new Float32Array(groupCount * groupSize)\<close>, two floats a vertex
  for position and uv, one for texture and alpha). \<open>activeConfig\<close> is \<open>None\<close> while
  \<open>_activeConfig\<close> is undefined.
  Pixel-side GL calls (viewport, framebuffer binding, clears, texture uploads, buffer
  uploads) and console output change none of these fields and are left out; creating a GL
  texture or framebuffer is taken to succeed.
\<close>

record stage =
  directDraw :: bool
  autoPurge :: jsnum
  maxBatchVertexCount :: jsnum
  batchVertexCount :: int
  batchID :: int
  drawID :: int
  renderPerDraw :: int
  renderMode :: string
  immediateRender :: bool
  activeConfig :: "config option"
  activeShader :: "program option"
  mainShader :: "program option"
  builtShaders :: "string \<Rightarrow> shaderData option"
  batchTextureCount :: int
  batchTextures :: "ref option list"
  baseTextures :: "ref option list"
  lastTextureInsert :: int
  slotBlacklist :: "bool list"
  lastTrackedCanvas :: int
  textureDictionary :: "ref option list"
  textureIDs :: "src_key \<Rightarrow> int option"
  heap :: "ref \<Rightarrow> obj"
  heapSize :: nat
  batchTextureOutput :: target
  batchTextureConcat :: target
  batchTextureTemp :: target
  bufferTextureOutput :: target
  bufferTextureConcat :: target
  bufferTextureTemp :: target
  bufferGroupCount :: "jsnum option"
  gl_blend :: blend
  gl_compiles :: "program \<Rightarrow> bool"
  pending :: "string list"
  trace :: "event list"

text \<open>
  JavaScript arrays: reading outside the array (or at an \<open>undefined\<close> index) gives
  \<open>undefined\<close>; writing past the end extends the array with holes. A write at a negative
  index would create a property beside the elements; no modelled write has one.
\<close>

definition js_get :: "'a option list \<Rightarrow> int option \<Rightarrow> 'a option" where
  "js_get xs i =
     (case i of
        None \<Rightarrow> None
      | Some k \<Rightarrow> if 0 \<le> k \<and> k < int (length xs) then xs ! nat k else None)"

definition js_set :: "'a option list \<Rightarrow> int \<Rightarrow> 'a option \<Rightarrow> 'a option list" where
  "js_set xs i v =
     (if i < 0 then xs
      else if i < int (length xs) then xs[nat i := v]
      else xs @ replicate (nat i - length xs) None @ [v])"

definition upd_obj :: "ref \<Rightarrow> (obj \<Rightarrow> obj) \<Rightarrow> stage \<Rightarrow> stage" where
  "upd_obj r f s = s\<lparr>heap := (heap s)(r := f (heap s r))\<rparr>"

text \<open>What can end a call early: a TypeError of the runtime, the call into BitmapCache
  (whose source is not part of the repository files at hand), or the iteration bound of
  the slot scan below.\<close>

datatype error = TypeError | ExternalBitmapCache | IterationLimit

datatype outcome = Done stage | Abort error stage

fun state_of :: "outcome \<Rightarrow> stage" where
  "state_of (Done s) = s"
| "state_of (Abort e s) = s"

definition andThen :: "outcome \<Rightarrow> (stage \<Rightarrow> outcome) \<Rightarrow> outcome" where
  "andThen r f = (case r of Done s \<Rightarrow> f s | Abort e s \<Rightarrow> Abort e s)"


section \<open>Flush and cover draw\<close>

text \<open>\<open>_renderBatch\<close>: nothing when the cursor is not positive; otherwise
  \<open>_renderPerDraw\<close> is incremented, then \<open>config.position\<close> and
  \<open>shaderProgram.positionAttribute\<close> are read, which throws when \<open>_activeConfig\<close> or
  \<open>_activeShader\<close> is undefined; then one \<open>drawArrays\<close> of the whole cursor, cursor to
  zero and batch counter up by one.\<close>

definition renderBatch :: "stage \<Rightarrow> outcome" where
  "renderBatch s =
     (if batchVertexCount s \<le> 0 then Done s
      else
        let s1 = s\<lparr>renderPerDraw := renderPerDraw s + 1\<rparr> in
        case activeConfig s1 of
          None \<Rightarrow> Abort TypeError s1
        | Some cfg \<Rightarrow>
            if activeShader s1 = None then Abort TypeError s1
            else Done (s1\<lparr>trace := BatchDrawn (batchVertexCount s1) (gl_blend s1) (activeShader s1)
                                  cfg (pending s1) # trace s1,
                          batchVertexCount := 0,
                          pending := [],
                          batchID := batchID s1 + 1\<rparr>))"

text \<open>\<open>_renderCover\<close> draws from \<open>_attributeConfig.default\<close>, which is undefined before
  \<open>_createBuffers\<close>.\<close>

definition renderCover :: "stage \<Rightarrow> outcome" where
  "renderCover s =
     (let s1 = s\<lparr>renderPerDraw := renderPerDraw s + 1\<rparr> in
      if bufferGroupCount s1 = None \<or> activeShader s1 = None then Abort TypeError s1
      else Done (s1\<lparr>trace := CoverDrawn (gl_blend s1) (activeShader s1) # trace s1,
                    batchID := batchID s1 + 1\<rparr>))"

text \<open>\<open>_drawCover\<close> as the modelled callers use it (no Filter argument): the program of
  the current render mode is read from \<open>_builtShaders\<close>, which throws when the mode has no
  entry.\<close>

definition drawCover :: "stage \<Rightarrow> outcome" where
  "drawCover s =
     (case builtShaders s (renderMode s) of
        None \<Rightarrow> Abort TypeError s
      | Some d \<Rightarrow> renderCover (s\<lparr>activeShader := Some (sd_shader d)\<rparr>))"


section \<open>Render modes\<close>

definition src0 :: blend_source where
  "src0 = \<lparr>b_eqRGB = None, b_srcRGB = None, b_dstRGB = None, b_eqA = None, b_srcA = None,
     b_dstA = None, b_shader = None\<rparr>"

definition shader_src :: "string \<Rightarrow> blend_source" where
  "shader_src m = src0\<lparr>b_shader := Some m\<rparr>"

definition func_src :: "string \<Rightarrow> string \<Rightarrow> string \<Rightarrow> string \<Rightarrow> blend_source" where
  "func_src sRGB sA dRGB dA =
     src0\<lparr>b_srcRGB := Some sRGB, b_srcA := Some sA, b_dstRGB := Some dRGB, b_dstA := Some dA\<rparr>"

definition BLEND_SOURCES_table :: "(string \<times> blend_source) list" where
  "BLEND_SOURCES_table =
   [(''source-over'', src0),
    (''source-in'', shader_src ''source-in''),
    (''source-in_cheap'', func_src ''DST_ALPHA'' ''ZERO'' ''ZERO'' ''SRC_ALPHA''),
    (''source-out'', shader_src ''source-out''),
    (''source-out_cheap'',
       (func_src ''ONE_MINUS_DST_ALPHA'' ''ONE'' ''ZERO'' ''SRC_ALPHA'')
         \<lparr>b_eqA := Some ''FUNC_SUBTRACT''\<rparr>),
    (''source-atop'', func_src ''DST_ALPHA'' ''ZERO'' ''ONE_MINUS_SRC_ALPHA'' ''ONE''),
    (''destination-over'', func_src ''ONE_MINUS_DST_ALPHA'' ''ONE_MINUS_DST_ALPHA'' ''ONE'' ''ONE''),
    (''destination-in'', shader_src ''destination-in''),
    (''destination-in_cheap'', func_src ''ZERO'' ''DST_ALPHA'' ''SRC_ALPHA'' ''ZERO''),
    (''destination-out'',
       (func_src ''ZERO'' ''DST_ALPHA'' ''ONE_MINUS_SRC_ALPHA'' ''ONE'')
         \<lparr>b_eqA := Some ''FUNC_REVERSE_SUBTRACT''\<rparr>),
    (''destination-atop'', shader_src ''destination-atop''),
    (''destination-atop_cheap'', func_src ''ONE_MINUS_DST_ALPHA'' ''ONE'' ''SRC_ALPHA'' ''ZERO''),
    (''copy'', shader_src ''copy''),
    (''copy_cheap'', src0\<lparr>b_dstRGB := Some ''ZERO'', b_dstA := Some ''ZERO''\<rparr>),
    (''xor'', shader_src ''xor''),
    (''multiply'', shader_src ''multiply''),
    (''multiply_cheap'', func_src ''ONE_MINUS_DST_ALPHA'' ''ONE'' ''SRC_COLOR'' ''ONE''),
    (''screen'', func_src ''ONE'' ''ONE'' ''ONE_MINUS_SRC_COLOR'' ''ONE_MINUS_SRC_ALPHA''),
    (''lighter'', src0\<lparr>b_dstRGB := Some ''ONE'', b_dstA := Some ''ONE''\<rparr>),
    (''lighten'', shader_src ''lighten''),
    (''darken'', shader_src ''darken''),
    (''overlay'', shader_src ''overlay''),
    (''hard-light'', shader_src ''hard-light''),
    (''soft-light'', shader_src ''soft-light''),
    (''color-dodge'', shader_src ''color-dodge''),
    (''color-burn'', shader_src ''color-burn''),
    (''difference'', shader_src ''difference''),
    (''exclusion'', shader_src ''exclusion''),
    (''hue'', shader_src ''hue''),
    (''saturation'', shader_src ''saturation''),
    (''color'', shader_src ''color''),
    (''luminosity'', shader_src ''luminosity'')]"

definition BLEND_SOURCES :: "string \<Rightarrow> blend_source option" where
  "BLEND_SOURCES = map_of BLEND_SOURCES_table"

text \<open>\<open>blendSrc.eqRGB || "FUNC_ADD"\<close> and its five siblings.\<close>

definition or_default :: "string option \<Rightarrow> string \<Rightarrow> string" where
  "or_default x d = (case x of None \<Rightarrow> d | Some v \<Rightarrow> if v = [] then d else v)"

definition blend_of :: "blend_source \<Rightarrow> blend" where
  "blend_of b =
     \<lparr>eqRGB = or_default (b_eqRGB b) ''FUNC_ADD'',
      srcRGB = or_default (b_srcRGB b) ''ONE'',
      dstRGB = or_default (b_dstRGB b) ''ONE_MINUS_SRC_ALPHA'',
      eqA = or_default (b_eqA b) ''FUNC_ADD'',
      srcA = or_default (b_srcA b) ''ONE'',
      dstA = or_default (b_dstA b) ''ONE_MINUS_SRC_ALPHA''\<rparr>"

text \<open>The first lines of \<open>_updateRenderMode\<close>: a missing name is \<open>source-over\<close>, and so is
  a name the table does not have.\<close>

definition resolveMode :: "string option \<Rightarrow> string \<times> blend_source" where
  "resolveMode newMode =
     (let requested = (case newMode of None \<Rightarrow> ''source-over'' | Some m \<Rightarrow> m) in
      case BLEND_SOURCES requested of
        Some b \<Rightarrow> (requested, b)
      | None \<Rightarrow> (''source-over'', src0))"

text \<open>\<open>this._attributeConfig[name]\<close>: undefined before \<open>_createBuffers\<close>.\<close>

definition attributeConfig :: "config \<Rightarrow> stage \<Rightarrow> config option" where
  "attributeConfig c s = (if bufferGroupCount s = None then None else Some c)"

text \<open>The tail of \<open>_updateRenderMode\<close>, once the mode's record is at hand. An exception of
  \<open>_renderBatch\<close> leaves the method before the mode is switched.\<close>

definition switchMode :: "string \<Rightarrow> shaderData \<Rightarrow> stage \<Rightarrow> outcome" where
  "switchMode newMode d s =
     (if sd_immediate d \<and> directDraw s then Done s
      else
        let s1 = (if sd_immediate d then s\<lparr>activeConfig := attributeConfig MicroConfig s\<rparr>
                  else s)
        in andThen (renderBatch s1)
             (\<lambda>s2. Done (s2\<lparr>renderMode := newMode, immediateRender := sd_immediate d,
                             gl_blend := sd_blend d\<rparr>)))"

definition updateRenderMode :: "string option \<Rightarrow> stage \<Rightarrow> outcome" where
  "updateRenderMode newMode0 s =
     (let (newMode, blendSrc) = resolveMode newMode0 in
      if renderMode s = newMode then Done s
      else
        case builtShaders s newMode of
          Some d \<Rightarrow> switchMode newMode d s
        | None \<Rightarrow>
            if b_shader blendSrc \<noteq> None \<or> builtShaders s ''source-over'' = None then
              (if gl_compiles s (CoverProgram (b_shader blendSrc)) then
                 let d = \<lparr>sd_blend = blend_of blendSrc,
                          sd_immediate = (b_shader blendSrc \<noteq> None),
                          sd_shader = CoverProgram (b_shader blendSrc)\<rparr>
                 in switchMode newMode d (s\<lparr>builtShaders := (builtShaders s)(newMode := Some d)\<rparr>)
               else Done (s\<lparr>builtShaders := (builtShaders s)(newMode := None)\<rparr>))
            else
              (case builtShaders s ''source-over'' of
                 None \<Rightarrow> Done s
               | Some so \<Rightarrow>
                   let d = \<lparr>sd_blend = blend_of blendSrc,
                            sd_immediate = (b_shader blendSrc \<noteq> None),
                            sd_shader = sd_shader so\<rparr>
                   in switchMode newMode d (s\<lparr>builtShaders := (builtShaders s)(newMode := Some d)\<rparr>)))"


section \<open>Texture resource manager\<close>

text \<open>\<open>gl.createTexture\<close> (through \<open>getBaseTexture\<close>): a new object on the heap.\<close>

definition createTexture :: "stage \<Rightarrow> ref \<times> stage" where
  "createTexture s =
     (heapSize s,
      s\<lparr>heap := (heap s)(heapSize s := new_obj TextureObj), heapSize := Suc (heapSize s)\<rparr>)"

text \<open>\<open>getRenderBufferTexture\<close>: a texture with a framebuffer that stores itself at the
  end of the dictionary.\<close>

definition getRenderBufferTexture :: "stage \<Rightarrow> ref \<times> stage" where
  "getRenderBufferTexture s =
     (let (t, s1) = createTexture s;
          sid = int (length (textureDictionary s1))
      in (t, (upd_obj t (\<lambda>x. x\<lparr>o_frameBuffer := True, o_storeID := Some sid\<rparr>) s1)
               \<lparr>textureDictionary := js_set (textureDictionary s1) sid (Some t)\<rparr>))"

text \<open>\<open>_updateTextureImageData\<close>: returns at once for an image that is not loaded;
  reads \<open>texture._activeIndex\<close> of the dictionary entry of the image, which throws when
  there is none; clears a defined \<open>_invalid\<close> flag.\<close>

definition updateTextureImageData :: "ref \<Rightarrow> stage \<Rightarrow> outcome" where
  "updateTextureImageData img s =
     (let im = heap s img in
      if \<not> (o_loaded im \<or> o_isCanvas im) then Done s
      else
        case js_get (textureDictionary s) (o_storeID im) of
          None \<Rightarrow> Abort TypeError s
        | Some t \<Rightarrow>
            Done (upd_obj img
                   (\<lambda>x. x\<lparr>o_invalid := (if o_invalid x = None then None else Some False)\<rparr>) s))"

text \<open>\<open>image && ((image._invalid === undefined && image._isCanvas) || image._invalid)\<close>
  for the first image of a texture's \<open>_imageData\<close>.\<close>

definition uploadFirstImage :: "ref \<Rightarrow> stage \<Rightarrow> outcome" where
  "uploadFirstImage t s =
     (case o_imageData (heap s t) of
        Some (img # rest) \<Rightarrow>
          (let im = heap s img in
           if (o_invalid im = None \<and> o_isCanvas im) \<or> o_invalid im = Some True
           then updateTextureImageData img s else Done s)
      | _ \<Rightarrow> Done s)"

text \<open>
  The do-while scan of \<open>_insertTextureInBatch\<close>. It reads \<open>_batchTextures[look]._batchID\<close>
  (a TypeError on an empty slot), takes the first slot whose occupant's stamp differs from
  the batch counter and that is not blacklisted, and stops when \<open>look\<close> is back at
  \<open>start\<close>. The first argument bounds the number of iterations; the caller passes the
  slot count, which the scan never exhausts (\<open>scanSlots_within_bound\<close> below).
\<close>

datatype scan_result = Found int | NotFound | ScanTypeError | ScanLimit

definition blacklisted :: "stage \<Rightarrow> int \<Rightarrow> bool" where
  "blacklisted s look =
     (0 \<le> look \<and> look < int (length (slotBlacklist s)) \<and> slotBlacklist s ! nat look)"

fun scanSlots :: "nat \<Rightarrow> stage \<Rightarrow> int \<Rightarrow> int \<Rightarrow> scan_result" where
  "scanSlots 0 s start look = ScanLimit"
| "scanSlots (Suc n) s start look =
     (case js_get (batchTextures s) (Some look) of
        None \<Rightarrow> ScanTypeError
      | Some t \<Rightarrow>
          if o_batchID (heap s t) \<noteq> Some (batchID s) \<and> \<not> blacklisted s look then Found look
          else
            (case js_rem (look + 1) (batchTextureCount s) of
               None \<Rightarrow> ScanTypeError
             | Some look' \<Rightarrow> if look' = start then NotFound else scanSlots n s start look'))"

text \<open>"lets put it into that spot": the slot changes hands.\<close>

definition placeTexture :: "ref \<Rightarrow> int \<Rightarrow> stage \<Rightarrow> outcome" where
  "placeTexture t found s =
     (let old = js_get (batchTextures s) (Some found);
          stamp = (case old of None \<Rightarrow> None | Some u \<Rightarrow> o_batchID (heap s u));
          s1 = (upd_obj t (\<lambda>x. x\<lparr>o_activeIndex := Some found\<rparr>) s)
                 \<lparr>batchTextures := js_set (batchTextures s) found (Some t),
                  trace := SlotEvicted found old stamp (batchID s) # trace s\<rparr>
      in andThen (uploadFirstImage t s1) (\<lambda>s2. Done (s2\<lparr>lastTextureInsert := found\<rparr>)))"

definition insertTextureInBatch :: "ref \<Rightarrow> stage \<Rightarrow> outcome" where
  "insertTextureInBatch t s =
     andThen
       (if js_get (batchTextures s) (o_activeIndex (heap s t)) \<noteq> Some t then
          (case js_rem (lastTextureInsert s + 1) (batchTextureCount s) of
             None \<Rightarrow> Abort TypeError s
           | Some start \<Rightarrow>
               (case scanSlots (nat \<bar>batchTextureCount s\<bar>) s start start of
                  ScanTypeError \<Rightarrow> Abort TypeError s
                | ScanLimit \<Rightarrow> Abort IterationLimit s
                | Found f \<Rightarrow> placeTexture t f s
                | NotFound \<Rightarrow> andThen (renderBatch s) (placeTexture t start)))
        else if o_drawID (heap s t) \<noteq> Some (drawID s) then uploadFirstImage t s
        else Done s)
       (\<lambda>s'. Done (upd_obj t
                 (\<lambda>x. x\<lparr>o_drawID := Some (drawID s'), o_batchID := Some (batchID s')\<rparr>) s'))"

text \<open>\<open>_loadTextureImage\<close>. The result is the texture it returns (\<open>undefined\<close> for a
  source that is neither an image with a \<open>src\<close> nor a canvas) and the outcome.\<close>

definition trackAndInsert :: "ref \<Rightarrow> ref \<Rightarrow> int \<Rightarrow> stage \<Rightarrow> ref option \<times> outcome" where
  "trackAndInsert img t storeID s =
     (let s1 = (if o_storeID (heap s t) \<noteq> Some (- 1)
                then upd_obj t
                       (\<lambda>x. x\<lparr>o_storeID := Some storeID,
                              o_imageData := Some (case o_imageData x of
                                                     Some d \<Rightarrow> d @ [img]
                                                   | None \<Rightarrow> [img])\<rparr>) s
                else s)
      in (Some t, insertTextureInBatch t s1))"

definition loadTextureImage :: "ref \<Rightarrow> stage \<Rightarrow> ref option \<times> outcome" where
  "loadTextureImage img s =
     (case (case o_kind (heap s img) of
              ImageEl src \<Rightarrow> if src \<noteq> [] then Some (Url src, s) else None
            | CanvasEl \<Rightarrow>
                Some (CanvasKey (lastTrackedCanvas s + 1),
                      (upd_obj img (\<lambda>x. x\<lparr>o_isCanvas := True\<rparr>) s)
                        \<lparr>lastTrackedCanvas := lastTrackedCanvas s + 1\<rparr>)
            | _ \<Rightarrow> None) of
        None \<Rightarrow> (None, Done s)
      | Some (key, s0) \<Rightarrow>
          (case textureIDs s0 key of
             None \<Rightarrow>
               (let storeID = int (length (textureDictionary s0));
                    s1 = upd_obj img (\<lambda>x. x\<lparr>o_storeID := Some storeID, o_invalid := Some True\<rparr>)
                           (s0\<lparr>textureIDs := (textureIDs s0)(key := Some storeID)\<rparr>);
                    (t, s2) = createTexture s1;
                    s3 = s2\<lparr>textureDictionary := js_set (textureDictionary s2) storeID (Some t)\<rparr>
                in trackAndInsert img t storeID s3)
           | Some storeID \<Rightarrow>
               (let s1 = upd_obj img (\<lambda>x. x\<lparr>o_storeID := Some storeID\<rparr>) s0 in
                case js_get (textureDictionary s1) (Some storeID) of
                  None \<Rightarrow> (None, Abort TypeError s1)
                | Some t \<Rightarrow> trackAndInsert img t storeID s1)))"

text \<open>\<open>_killTextureObject\<close>.\<close>

definition clear_storeIDs :: "ref list \<Rightarrow> (ref \<Rightarrow> obj) \<Rightarrow> (ref \<Rightarrow> obj)" where
  "clear_storeIDs data h = fold (\<lambda>i h'. h'(i := (h' i)\<lparr>o_storeID := None\<rparr>)) (rev data) h"

definition killTextureObject :: "ref option \<Rightarrow> stage \<Rightarrow> stage" where
  "killTextureObject texture s =
     (case texture of
        None \<Rightarrow> s
      | Some t \<Rightarrow>
          (let s1 = (case o_storeID (heap s t) of
                       None \<Rightarrow> s
                     | Some k \<Rightarrow>
                         if 0 \<le> k then
                           upd_obj t (\<lambda>x. x\<lparr>o_imageData := None, o_storeID := None\<rparr>)
                             (s\<lparr>textureDictionary := js_set (textureDictionary s) k None,
                                textureIDs := (\<lambda>n. if textureIDs s n = Some k then None
                                                    else textureIDs s n),
                                heap := clear_storeIDs
                                          (case o_imageData (heap s t) of
                                             Some d \<Rightarrow> d | None \<Rightarrow> [])
                                          (heap s)\<rparr>)
                         else s);
               s2 = (case o_activeIndex (heap s1 t) of
                       None \<Rightarrow> s1
                     | Some i \<Rightarrow>
                         if js_get (batchTextures s1) (Some i) = Some t
                         then s1\<lparr>batchTextures :=
                                   js_set (batchTextures s1) i (js_get (baseTextures s1) (Some i))\<rparr>
                         else s1)
           in (upd_obj t (\<lambda>x. x\<lparr>o_frameBuffer := False\<rparr>) s2)
                \<lparr>trace := TextureDeleted t # trace s2\<rparr>))"

text \<open>
  \<open>releaseTexture\<close>. Its argument is a display object, an image source or a texture:
  \<open>RContainer\<close> has \<open>children\<close>, \<open>RBitmap\<close> is a Bitmap with its image, \<open>RSprite\<close> a
  Sprite with the images of its sheet, \<open>RObject\<close> an image, canvas or texture object
  handed in directly, \<open>RDisplay\<close> any other display object and \<open>RNothing\<close> a falsy
  argument. Display objects here have no \<open>cacheCanvas\<close> (\<open>uncache\<close> belongs to
  BitmapCache).
\<close>

datatype release_item =
    RNothing
  | RContainer "release_item list"
  | RBitmap ref
  | RSprite "ref list"
  | RObject ref
  | RDisplay

text \<open>"remove it": the tail of \<open>releaseTexture\<close> for the image found.\<close>

definition releaseFound :: "ref \<Rightarrow> bool \<Rightarrow> stage \<Rightarrow> outcome" where
  "releaseFound foundImage safe s =
     (let texture = js_get (textureDictionary s) (o_storeID (heap s foundImage)) in
      if safe then
        (case texture of
           None \<Rightarrow> Abort TypeError s
         | Some t \<Rightarrow>
             (case o_imageData (heap s t) of
                None \<Rightarrow> Abort TypeError s
              | Some data \<Rightarrow>
                  (let data' = remove1 foundImage data;
                       s1 = upd_obj t (\<lambda>x. x\<lparr>o_imageData := Some data'\<rparr>) s;
                       s2 = upd_obj foundImage (\<lambda>x. x\<lparr>o_storeID := None\<rparr>) s1
                   in Done (if data' = [] then killTextureObject (Some t) s2 else s2))))
      else Done (killTextureObject texture s))"

definition releaseObject :: "ref \<Rightarrow> bool \<Rightarrow> stage \<Rightarrow> outcome" where
  "releaseObject r safe s =
     (case o_storeID (heap s r) of
        None \<Rightarrow> Done s
      | Some k \<Rightarrow>
          if js_get (textureDictionary s) (Some k) = Some r
          then Done (upd_obj r (\<lambda>x. x\<lparr>o_storeID := None\<rparr>) (killTextureObject (Some r) s))
          else releaseFound r safe s)"

fun releaseImages :: "ref list \<Rightarrow> bool \<Rightarrow> stage \<Rightarrow> outcome" where
  "releaseImages [] safe s = Done s"
| "releaseImages (i # rest) safe s = andThen (releaseObject i safe s) (releaseImages rest safe)"

fun releaseTexture :: "release_item \<Rightarrow> bool \<Rightarrow> stage \<Rightarrow> outcome"
  and releaseChildren :: "release_item list \<Rightarrow> bool \<Rightarrow> stage \<Rightarrow> outcome" where
  "releaseTexture RNothing safe s = Done s"
| "releaseTexture (RContainer cs) safe s = releaseChildren cs safe s"
| "releaseTexture (RBitmap img) safe s = releaseFound img safe s"
| "releaseTexture (RSprite images) safe s = releaseImages images safe s"
| "releaseTexture (RObject r) safe s = releaseObject r safe s"
| "releaseTexture RDisplay safe s = Done s"
| "releaseChildren [] safe s = Done s"
| "releaseChildren (c # cs) safe s = andThen (releaseTexture c safe s) (releaseChildren cs safe)"

text \<open>
  \<open>purgeTextures\<close>. The inner loop drops from \<open>_imageData\<close> every image with
  \<open>item._drawID + count <= this._drawID\<close> (false when \<open>_drawID\<close> is undefined) and clears
  its \<open>_storeID\<close>; the loop with \<open>splice\<close> and \<open>j--\<close> visits every element once.
\<close>

definition purgeCount :: "jsnum \<Rightarrow> jsnum" where
  "purgeCount count = (if js_le (Fin 0) count then count else Fin 100)"

definition stale :: "(real \<Rightarrow> jsnum) \<Rightarrow> jsnum \<Rightarrow> int \<Rightarrow> obj \<Rightarrow> bool" where
  "stale rd count did item =
     (case o_drawID item of
        None \<Rightarrow> False
      | Some d \<Rightarrow> js_le (js_sum rd (Fin (of_int d)) count) (Fin (of_int did)))"

fun sweep :: "(real \<Rightarrow> jsnum) \<Rightarrow> jsnum \<Rightarrow> int \<Rightarrow> ref list \<Rightarrow> (ref \<Rightarrow> obj)
    \<Rightarrow> ref list \<times> (ref \<Rightarrow> obj)" where
  "sweep rd count did [] h = ([], h)"
| "sweep rd count did (item # rest) h =
     (if stale rd count did (h item)
      then sweep rd count did rest (h(item := (h item)\<lparr>o_storeID := None\<rparr>))
      else (let (kept, h') = sweep rd count did rest h in (item # kept, h')))"

definition purgeAt :: "(real \<Rightarrow> jsnum) \<Rightarrow> jsnum \<Rightarrow> nat \<Rightarrow> stage \<Rightarrow> stage" where
  "purgeAt rd count i s =
     (case js_get (textureDictionary s) (Some (int i)) of
        None \<Rightarrow> s
      | Some t \<Rightarrow>
          (case o_imageData (heap s t) of
             None \<Rightarrow> s
           | Some data \<Rightarrow>
               (let (kept, h') = sweep rd count (drawID s) data (heap s);
                    s1 = upd_obj t (\<lambda>x. x\<lparr>o_imageData := Some kept\<rparr>) (s\<lparr>heap := h'\<rparr>)
                in if kept = [] then killTextureObject (Some t) s1 else s1)))"

definition purgeTextures :: "(real \<Rightarrow> jsnum) \<Rightarrow> jsnum \<Rightarrow> stage \<Rightarrow> stage" where
  "purgeTextures rd count s =
     fold (purgeAt rd (purgeCount count)) [0 ..< length (textureDictionary s)] s"


section \<open>Batch accumulator and draw\<close>

text \<open>
  A scene node as \<open>_appendToBatch\<close> reads it: \<open>visible\<close>, \<open>alpha\<close>,
  \<open>compositeOperation\<close>, \<open>cacheCanvas\<close> (undefined, null or a surface), whether
  \<open>filters\<close> is a non-empty array, \<open>bitmapCache\<close> (undefined, null or a cache with its
  \<open>_autoGenerated\<close> flag), and what the node is: a container with \<open>children\<close>, a Bitmap
  with its image, a Sprite with the image of its current frame (\<open>None\<close> when
  \<open>getFrame\<close> gives null or the frame has no image), or another display object.
  Matrices, UV rectangles and the vertex values themselves are not represented.
\<close>

datatype ccanvas = CUndefined | CNull | CSurface ref

datatype bcache = BUndefined | BNull | BCache bool

datatype item =
  Item (i_visible: bool) (i_alpha: real) (i_compositeOperation: "string option")
       (i_cacheCanvas: ccanvas) (i_hasFilters: bool) (i_bitmapCache: bcache)
       (i_content: content)
and content = Children "item list" | BitmapC "ref option" | SpriteC "ref option" | MiscC

definition truthy_str :: "string option \<Rightarrow> bool" where
  "truthy_str m = (case m of None \<Rightarrow> False | Some v \<Rightarrow> v \<noteq> [])"

text \<open>\<open>_immediateBatchRender\<close>. A working buffer that is \<open>null\<close> is created; one that
  is \<open>undefined\<close> fails the \<open>=== null\<close> test and its \<open>_frameBuffer\<close> is then read, which
  throws.\<close>

definition prepareBuffer :: "target \<Rightarrow> stage \<Rightarrow> (target \<times> stage) option" where
  "prepareBuffer b s =
     (case b of
        TNull \<Rightarrow> (let (t, s1) = getRenderBufferTexture s in Some (TTex t, s1))
      | TUndefined \<Rightarrow> None
      | _ \<Rightarrow> Some (b, s))"

definition immediateBatchRender :: "stage \<Rightarrow> outcome" where
  "immediateBatchRender s =
     (case prepareBuffer (batchTextureConcat s) s of
        None \<Rightarrow> Abort TypeError s
      | Some (cbuf, s1) \<Rightarrow>
          (let s2 = s1\<lparr>batchTextureConcat := cbuf\<rparr> in
           case prepareBuffer (batchTextureTemp s2) s2 of
             None \<Rightarrow> Abort TypeError s2
           | Some (tbuf, s3) \<Rightarrow>
               (let s4 = s3\<lparr>batchTextureTemp := tbuf\<rparr>;
                    s5 = s4\<lparr>batchTextureOutput := batchTextureConcat s4,
                            batchTextureConcat := batchTextureOutput s4,
                            activeShader := mainShader s4\<rparr>
                in andThen (renderBatch s5)
                     (\<lambda>s6. case batchTextureOutput s6 of
                             TUndefined \<Rightarrow> Abort TypeError s6
                           | TNull \<Rightarrow> Abort TypeError s6
                           | _ \<Rightarrow> drawCover s6))))"

text \<open>"calculate texture": a source without \<open>_storeID\<close> is loaded, otherwise its
  dictionary entry is fetched (the node is skipped when there is none) and inserted into
  the batch unless its stamp is the current batch. A source that cannot be loaded leaves
  \<open>texture\<close> undefined and the next statement, \<open>texture._activeIndex\<close>, throws.\<close>

datatype acquired = Acquired ref stage | Skipped stage | Failed error stage

definition acquireTexture :: "ref \<Rightarrow> stage \<Rightarrow> acquired" where
  "acquireTexture img s =
     (case o_storeID (heap s img) of
        None \<Rightarrow>
          (case loadTextureImage img s of
             (None, r) \<Rightarrow> (case r of Done s' \<Rightarrow> Failed TypeError s' | Abort e s' \<Rightarrow> Failed e s')
           | (Some t, r) \<Rightarrow> (case r of Done s' \<Rightarrow> Acquired t s' | Abort e s' \<Rightarrow> Failed e s'))
      | Some k \<Rightarrow>
          (case js_get (textureDictionary s) (Some k) of
             None \<Rightarrow> Skipped s
           | Some t \<Rightarrow>
               if o_batchID (heap s t) \<noteq> Some (batchID s)
               then (case insertTextureInBatch t s of
                       Done s' \<Rightarrow> Acquired t s' | Abort e s' \<Rightarrow> Failed e s')
               else Acquired t s))"

text \<open>The writes of one quad: \<open>image._drawID\<close>, six vertices in each attribute array of
  the active configuration at the cursor (\<open>cfg.position.array\<close> throws when
  \<open>_activeConfig\<close> is undefined), and the cursor advanced by \<open>INDICES_PER_CARD\<close>. A write
  past the end of a typed array is dropped by the runtime; the cursor advances all the
  same.\<close>

definition writeQuad :: "ref \<Rightarrow> ref \<Rightarrow> stage \<Rightarrow> outcome" where
  "writeQuad img t s =
     (let s1 = upd_obj img (\<lambda>x. x\<lparr>o_drawID := Some (drawID s)\<rparr>) s in
      case activeConfig s1 of
        None \<Rightarrow> Abort TypeError s1
      | Some cfg \<Rightarrow>
          Done (s1\<lparr>trace := QuadWritten (batchVertexCount s1) (renderMode s1) cfg
                              (o_activeIndex (heap s t)) # trace s1,
                    pending := pending s1 @ [renderMode s1],
                    batchVertexCount := batchVertexCount s1 + INDICES_PER_CARD\<rparr>))"

text \<open>\<open>this._batchVertexCount + INDICES_PER_CARD > this._maxBatchVertexCount\<close>, then
  \<open>_renderBatch\<close>.\<close>

definition overflowCheck :: "stage \<Rightarrow> outcome" where
  "overflowCheck s =
     (if js_lt (maxBatchVertexCount s) (Fin (of_int (batchVertexCount s + INDICES_PER_CARD)))
      then renderBatch s else Done s)"

fun leaf_image :: "content \<Rightarrow> ref option \<Rightarrow> ref option" where
  "leaf_image c (Some surface) = Some surface"
| "leaf_image (BitmapC im) None = im"
| "leaf_image (SpriteC im) None = im"
| "leaf_image _ None = None"

text \<open>The loop body of \<open>_appendToBatch\<close> for a node that is drawn as one quad, from
  \<open>const containerRenderMode\<close> on. A node drawn from its cache surface has its vertices
  computed from \<open>item.bitmapCache.x\<close>, which throws when \<open>bitmapCache\<close> is null or
  undefined; \<open>image._drawID\<close> is already written then. A sprite frame is taken to carry
  its \<open>rect\<close>.\<close>

fun has_cache_record :: "bcache \<Rightarrow> bool" where
  "has_cache_record (BCache g) = True"
| "has_cache_record _ = False"

definition quadAndAfter :: "ref \<Rightarrow> ref \<Rightarrow> string \<Rightarrow> stage \<Rightarrow> outcome" where
  "quadAndAfter img t containerRenderMode s3 =
     andThen (writeQuad img t s3)
       (\<lambda>s4. andThen
                (if immediateRender s4
                 then immediateBatchRender (s4\<lparr>activeConfig := attributeConfig DefaultConfig s4\<rparr>)
                 else Done s4)
                (\<lambda>s5. if renderMode s5 \<noteq> containerRenderMode
                      then updateRenderMode (Some containerRenderMode) s5 else Done s5))"

definition drawLeaf :: "item \<Rightarrow> ref option \<Rightarrow> stage \<Rightarrow> outcome" where
  "drawLeaf it useCache s =
     (let containerRenderMode = renderMode s in
      andThen (if truthy_str (i_compositeOperation it)
               then updateRenderMode (i_compositeOperation it) s else Done s)
        (\<lambda>s1. andThen (overflowCheck s1)
           (\<lambda>s2. case leaf_image (i_content it) useCache of
                   None \<Rightarrow> Done s2
                 | Some img \<Rightarrow>
                     (case acquireTexture img s2 of
                        Skipped s3 \<Rightarrow> Done s3
                      | Failed e s3 \<Rightarrow> Abort e s3
                      | Acquired t s3 \<Rightarrow>
                          if useCache \<noteq> None \<and> \<not> has_cache_record (i_bitmapCache it)
                          then Abort TypeError
                                 (upd_obj img (\<lambda>x. x\<lparr>o_drawID := Some (drawID s3)\<rparr>) s3)
                          else quadAndAfter img t containerRenderMode s3))))"

text \<open>
  The condition under which \<open>_appendToBatch\<close> builds a cache for a filtered node; the
  flush that precedes \<open>bitmapCache.define\<close> is modelled, the call itself ends the run
  with \<open>ExternalBitmapCache\<close>.
\<close>

definition autoCaches :: "item \<Rightarrow> bool \<Rightarrow> stage \<Rightarrow> bool" where
  "autoCaches it ignoreCache s =
     (\<not> directDraw s \<and> \<not> ignoreCache \<and> i_cacheCanvas it = CNull \<and> i_hasFilters it \<and>
      (i_bitmapCache it = BNull \<or> i_bitmapCache it = BCache True))"

definition useCache_of :: "item \<Rightarrow> bool \<Rightarrow> ref option" where
  "useCache_of it ignoreCache =
     (if ignoreCache then None
      else case i_cacheCanvas it of CSurface c \<Rightarrow> Some c | _ \<Rightarrow> None)"

fun appendToBatch :: "item \<Rightarrow> real \<Rightarrow> bool \<Rightarrow> stage \<Rightarrow> outcome"
  and appendChildren :: "item list \<Rightarrow> real \<Rightarrow> bool \<Rightarrow> stage \<Rightarrow> outcome"
  and appendChild :: "item \<Rightarrow> real \<Rightarrow> bool \<Rightarrow> stage \<Rightarrow> outcome" where
  "appendToBatch (Item v a c cc hf bc (Children cs)) concatAlpha ignoreCache s =
     (let previousRenderMode = renderMode s in
      case (if truthy_str c then updateRenderMode c s else Done s) of
        Abort e s1 \<Rightarrow> Abort e s1
      | Done s1 \<Rightarrow>
          (case appendChildren cs concatAlpha ignoreCache s1 of
             Abort e s2 \<Rightarrow> Abort e s2
           | Done s2 \<Rightarrow>
               if renderMode s2 \<noteq> previousRenderMode
               then updateRenderMode (Some previousRenderMode) s2 else Done s2))"
| "appendToBatch (Item v a c cc hf bc (BitmapC im)) concatAlpha ignoreCache s = Abort TypeError s"
| "appendToBatch (Item v a c cc hf bc (SpriteC im)) concatAlpha ignoreCache s = Abort TypeError s"
| "appendToBatch (Item v a c cc hf bc MiscC) concatAlpha ignoreCache s = Abort TypeError s"
| "appendChildren [] concatAlpha ignoreCache s = Done s"
| "appendChildren (it # rest) concatAlpha ignoreCache s =
     (case appendChild it concatAlpha ignoreCache s of
        Abort e s1 \<Rightarrow> Abort e s1
      | Done s1 \<Rightarrow> appendChildren rest concatAlpha ignoreCache s1)"
| "appendChild (Item v a c cc hf bc ct) concatAlpha ignoreCache s =
     (let it = Item v a c cc hf bc ct;
          useCache = useCache_of it ignoreCache
      in if \<not> (v \<and> 35 / 10000 < concatAlpha) then Done s
         else if useCache = None \<and> autoCaches it ignoreCache s
         then andThen (renderBatch s) (\<lambda>s1. Abort ExternalBitmapCache s1)
         else
           case ct of
             Children cs \<Rightarrow>
               if useCache = None
               then appendToBatch (Item v a c cc hf bc (Children cs)) (a * concatAlpha) False s
               else drawLeaf it useCache s
           | _ \<Rightarrow> drawLeaf it useCache s)"

text \<open>\<open>_drawContent\<close> and \<open>draw\<close> on a WebGL context. The root is the stage itself as a
  scene node, so \<open>this.alpha\<close> is the root's alpha. \<open>rd\<close> is the rounding of a sum to a
  double, used by the purge.\<close>

definition drawContent :: "item \<Rightarrow> bool \<Rightarrow> stage \<Rightarrow> outcome" where
  "drawContent rootNode ignoreCache s =
     andThen (appendToBatch rootNode (i_alpha rootNode) ignoreCache (s\<lparr>activeShader := mainShader s\<rparr>))
       renderBatch"

definition draw :: "(real \<Rightarrow> jsnum) \<Rightarrow> item \<Rightarrow> bool \<Rightarrow> stage \<Rightarrow> outcome" where
  "draw rd rootNode ignoreCache s =
     (let storeBatchOutput = batchTextureOutput s;
          storeBatchConcat = batchTextureConcat s;
          storeBatchTemp = batchTextureTemp s;
          s1 = s\<lparr>renderPerDraw := 0, batchVertexCount := 0, pending := [],
                 drawID := drawID s + 1\<rparr>;
          s2 = (if directDraw s1 then s1\<lparr>batchTextureOutput := TStage\<rparr>
                else s1\<lparr>batchTextureOutput := bufferTextureOutput s1,
                        batchTextureConcat := bufferTextureConcat s1,
                        batchTextureTemp := bufferTextureTemp s1\<rparr>)
      in andThen (andThen (updateRenderMode (Some ''source-over'') s2)
                    (drawContent rootNode ignoreCache))
           (\<lambda>s4. andThen
                    (if \<not> directDraw s4 \<and> renderPerDraw s4 \<noteq> 0 then drawCover s4 else Done s4)
                    (\<lambda>s5. let s6 = s5\<lparr>bufferTextureOutput := batchTextureOutput s5,
                                       bufferTextureConcat := batchTextureConcat s5,
                                       bufferTextureTemp := batchTextureTemp s5,
                                       batchTextureOutput := storeBatchOutput,
                                       batchTextureConcat := storeBatchConcat,
                                       batchTextureTemp := storeBatchTemp\<rparr>
                           in Done (if autoPurge_due (drawID s6) (autoPurge s6)
                                    then purgeTextures rd (autoPurge s6) s6 else s6))))"


section \<open>Construction\<close>

text \<open>The values of the class's field initialisers, for a driver \<open>compiles\<close>.\<close>

definition default_blend :: blend where
  "default_blend = blend_of src0"

definition field_defaults :: "(program \<Rightarrow> bool) \<Rightarrow> stage" where
  "field_defaults compiles =
     \<lparr>directDraw = False, autoPurge = Fin 1200, maxBatchVertexCount = Fin 0,
      batchVertexCount = 0, batchID = 0, drawID = 0, renderPerDraw = 0, renderMode = [],
      immediateRender = False, activeConfig = None, activeShader = None,
      mainShader = None, builtShaders = (\<lambda>m. None), batchTextureCount = 0,
      batchTextures = [], baseTextures = [], lastTextureInsert = - 1, slotBlacklist = [],
      lastTrackedCanvas = - 1, textureDictionary = [], textureIDs = (\<lambda>k. None),
      heap = (\<lambda>r. new_obj OtherEl), heapSize = 0,
      batchTextureOutput = TStage, batchTextureConcat = TUndefined,
      batchTextureTemp = TUndefined, bufferTextureOutput = TUndefined,
      bufferTextureConcat = TUndefined, bufferTextureTemp = TUndefined,
      bufferGroupCount = None,
      gl_blend = default_blend, gl_compiles = compiles, pending = [], trace = []\<rparr>"

text \<open>\<open>_createBuffers\<close>: \<open>groupCount\<close> is read from \<open>_maxBatchVertexCount\<close> as it is
  at the call, the arrays of the default configuration are allocated with it, the micro
  configuration gets its one array of 30 floats, and the default configuration becomes
  the active one.\<close>

definition createBuffers :: "stage \<Rightarrow> stage" where
  "createBuffers s =
     s\<lparr>bufferGroupCount := Some (maxBatchVertexCount s), activeConfig := Some DefaultConfig\<rparr>"

text \<open>\<open>_initMaterials\<close>, with \<open>gl.getParameter(gl.MAX_TEXTURE_IMAGE_UNITS)\<close> as argument.\<close>

definition initMaterials :: "int \<Rightarrow> stage \<Rightarrow> init_error + stage" where
  "initMaterials gpuTextureCount s =
     (let s0 = s\<lparr>lastTextureInsert := - 1, textureDictionary := [], textureIDs := (\<lambda>k. None),
                 baseTextures := [], batchTextures := [], batchTextureCount := gpuTextureCount\<rparr>
      in case compileMainShader (\<lambda>c. gl_compiles s (BatchProgram c)) gpuTextureCount of
           Inl e \<Rightarrow> Inl e
         | Inr c \<Rightarrow>
             (let s1 = s0\<lparr>batchTextureCount := c, activeShader := Some (BatchProgram c),
                          mainShader := Some (BatchProgram c)\<rparr>;
                  (t, s2) = createTexture s1;
                  s3 = upd_obj t (\<lambda>x. x\<lparr>o_storeID := Some (- 1)\<rparr>) s2;
                  slots = replicate (nat c) (Some t)
              in Inr (s3\<lparr>baseTextures := slots, batchTextures := slots\<rparr>)))"

text \<open>The constructor with a canvas and a WebGL context at hand. \<open>opt_batchSize\<close> is
  \<open>Number(batchSize)\<close>. The order is the source's: \<open>_initializeWebGL\<close> (which sets the
  GL blend state and calls \<open>_createBuffers\<close>, \<open>_initMaterials\<close> and
  \<open>_updateRenderMode\<close>) runs before the assignment to \<open>_maxBatchVertexCount\<close>. The
  constructor ends with the exception of \<open>_initMaterials\<close> or with one thrown on the
  way.\<close>

datatype construct_error = InitFailed init_error | Thrown error

record options =
  opt_autoPurge :: "jsnum option"
  opt_directDraw :: "bool option"
  opt_batchSize :: jsnum

definition new_StageGL ::
  "options \<Rightarrow> (program \<Rightarrow> bool) \<Rightarrow> int \<Rightarrow> construct_error + stage" where
  "new_StageGL opts compiles gpuTextureCount =
     (let s0 = (field_defaults compiles)
                 \<lparr>autoPurge := constructed_autoPurge (opt_autoPurge opts),
                  directDraw := (case opt_directDraw opts of None \<Rightarrow> True | Some d \<Rightarrow> d)\<rparr>
      in case initMaterials gpuTextureCount (createBuffers (s0\<lparr>gl_blend := default_blend\<rparr>)) of
           Inl e \<Rightarrow> Inl (InitFailed e)
         | Inr s1 \<Rightarrow>
             (case updateRenderMode (Some ''source-over'') s1 of
                Abort e s2 \<Rightarrow> Inl (Thrown e)
              | Done s2 \<Rightarrow>
                  (let s3 = (if \<not> directDraw s2
                             then (let (t, s') = getRenderBufferTexture s2
                                   in s'\<lparr>bufferTextureOutput := TTex t\<rparr>)
                             else s2)
                   in Inr (s3\<lparr>maxBatchVertexCount :=
                                  maxBatchVertexCount_of (opt_batchSize opts)\<rparr>))))"


section \<open>Predicates used in the statements\<close>

text \<open>A run of retry counts: each count was rejected, exceeded 1, and is followed by
  its half (integer division).\<close>

fun halving_chain :: "(int \<Rightarrow> bool) \<Rightarrow> int list \<Rightarrow> bool" where
  "halving_chain ok [] = False"
| "halving_chain ok [x] = True"
| "halving_chain ok (x # y # r) = (\<not> ok x \<and> 1 < x \<and> y = x div 2 \<and> halving_chain ok (y # r))"

text \<open>What the table says about a mode name; a name that is not in the table has the
  defaults, which are also the context's initial blend state.\<close>

definition mode_source :: "string \<Rightarrow> blend_source" where
  "mode_source m = (case BLEND_SOURCES m of Some b \<Rightarrow> b | None \<Rightarrow> src0)"

definition mode_blend :: "string \<Rightarrow> blend" where
  "mode_blend m = blend_of (mode_source m)"

definition mode_immediate :: "string \<Rightarrow> bool" where
  "mode_immediate m = (b_shader (mode_source m) \<noteq> None)"

text \<open>Every record memoised in \<open>_builtShaders\<close> is the one \<open>_updateRenderMode\<close> builds
  from the table for that name.\<close>

definition shaders_consistent :: "stage \<Rightarrow> bool" where
  "shaders_consistent s =
     (\<forall>m d. builtShaders s m = Some d \<longrightarrow>
        sd_blend d = mode_blend m \<and> sd_immediate d = mode_immediate m)"





text \<open>A stage whose dictionary holds one texture shared by two images, last drawn at
  draws 1 and 90, with the draw counter at 100.\<close>

definition shared_stage :: stage where
  "shared_stage =
     (field_defaults (\<lambda>p. True))
       \<lparr>textureDictionary := [Some 0], heapSize := 3, drawID := 100,
        textureIDs := (\<lambda>k. None)(Url ''a.png'' := Some 0),
        heap := (\<lambda>r. new_obj OtherEl)
          (0 := (new_obj TextureObj)\<lparr>o_storeID := Some 0, o_imageData := Some [1, 2]\<rparr>,
           1 := (new_obj (ImageEl ''a.png''))\<lparr>o_storeID := Some 0, o_drawID := Some 1\<rparr>,
           2 := (new_obj (ImageEl ''a.png''))\<lparr>o_storeID := Some 0, o_drawID := Some 90\<rparr>)\<rparr>"


text \<open>
  A driver on which the batch program links for one texture unit only and every cover
  program links; the options of a construction with defaults; the stage the constructor
  returns for them on a context with 8 texture units; that stage with two loaded images
  (100 and 101) and an element that is no image (102) allocated in the heap; a Bitmap node and a
  container node; the stage after one Bitmap has been appended to the batch.
\<close>

definition demo_driver :: "program \<Rightarrow> bool" where
  "demo_driver p = (case p of BatchProgram c \<Rightarrow> c \<le> 1 | CoverProgram f \<Rightarrow> True)"

definition demo_options :: options where
  "demo_options = \<lparr>opt_autoPurge = None, opt_directDraw = None, opt_batchSize = Fin 500\<rparr>"

definition constructed_stage :: stage where
  "constructed_stage =
     (case new_StageGL demo_options demo_driver 8 of
        Inr s \<Rightarrow> s | Inl e \<Rightarrow> field_defaults demo_driver)"

definition place_images :: "stage \<Rightarrow> stage" where
  "place_images s =
     s\<lparr>heap := (heap s)(100 := (new_obj (ImageEl ''a.png''))\<lparr>o_loaded := True\<rparr>,
                         101 := (new_obj (ImageEl ''b.png''))\<lparr>o_loaded := True\<rparr>,
                         102 := new_obj OtherEl),
       heapSize := 103\<rparr>"

definition demo_stage :: stage where
  "demo_stage = place_images constructed_stage"

definition bitmap :: "ref \<Rightarrow> item" where
  "bitmap r = Item True 1 None CUndefined False BUndefined (BitmapC (Some r))"

definition group :: "item list \<Rightarrow> item" where
  "group cs = Item True 1 None CUndefined False BUndefined (Children cs)"

definition quad_stage :: stage where
  "quad_stage = state_of (appendToBatch (group [bitmap 100]) 1 False demo_stage)"

text \<open>The same construction without direct draw; a Bitmap with a composite operation; the
  stage a draw leaves when its second child has no usable image.\<close>

definition buffered_options :: options where
  "buffered_options =
     \<lparr>opt_autoPurge = None, opt_directDraw = Some False, opt_batchSize = Fin 500\<rparr>"

definition buffered_stage :: stage where
  "buffered_stage =
     (case new_StageGL buffered_options demo_driver 8 of
        Inr s \<Rightarrow> place_images s | Inl e \<Rightarrow> field_defaults demo_driver)"

definition blended :: "ref \<Rightarrow> string \<Rightarrow> item" where
  "blended r m = Item True 1 (Some m) CUndefined False BUndefined (BitmapC (Some r))"





text \<open>
  Relations between a stage and a later one, used to carry invariants over the steps of
  a draw. An event is housekeeping when it is neither a quad nor a draw call. A step is
  \<open>calm\<close> when it leaves the batch (capacity, cursor, batch counter, render mode, blend
  state, mode records, pending quads, direct-draw and immediate flags) alone and adds only
  housekeeping events; it is a \<open>frame\<close> step when, besides, the only events it adds are
  texture deletions and every batch stamp is kept or cleared.
\<close>

fun is_housekeeping :: "event \<Rightarrow> bool" where
  "is_housekeeping (TextureDeleted t) = True"
| "is_housekeeping (SlotEvicted i t st b) = True"
| "is_housekeeping _ = False"

definition calm :: "stage \<Rightarrow> stage \<Rightarrow> bool" where
  "calm s s' =
     (maxBatchVertexCount s' = maxBatchVertexCount s
      \<and> batchVertexCount s' = batchVertexCount s
      \<and> batchID s' = batchID s
      \<and> renderMode s' = renderMode s
      \<and> gl_blend s' = gl_blend s
      \<and> builtShaders s' = builtShaders s
      \<and> pending s' = pending s
      \<and> directDraw s' = directDraw s
      \<and> immediateRender s' = immediateRender s
      \<and> set (trace s') \<subseteq> set (trace s) \<union> {e. is_housekeeping e})"

definition frame :: "stage \<Rightarrow> stage \<Rightarrow> bool" where
  "frame s s' =
     (calm s s'
      \<and> set (trace s') \<subseteq> set (trace s) \<union> range TextureDeleted
      \<and> (\<forall>x. o_batchID (heap s' x) = o_batchID (heap s x) \<or> o_batchID (heap s' x) = None))"

text \<open>An outcome satisfies \<open>P\<close> when it returns and \<open>Q\<close> when it throws.\<close>

definition holds :: "(stage \<Rightarrow> bool) \<Rightarrow> (stage \<Rightarrow> bool) \<Rightarrow> outcome \<Rightarrow> bool" where
  "holds P Q r = (case r of Done s \<Rightarrow> P s | Abort e s \<Rightarrow> Q s)"

fun acquired_state :: "acquired \<Rightarrow> stage" where
  "acquired_state (Acquired t s) = s"
| "acquired_state (Skipped s) = s"
| "acquired_state (Failed e s) = s"

text \<open>The shape of what \<open>_loadTextureImage\<close> returns.\<close>

definition load_result :: "stage \<Rightarrow> ref option \<times> outcome \<Rightarrow> bool" where
  "load_result s r =
     (\<exists>s1. frame s s1 \<and>
        (r = (None, Done s1) \<or> r = (None, Abort TypeError s1)
         \<or> (\<exists>t. r = (Some t, insertTextureInBatch t s1))))"

text \<open>Steps that change only the buffer targets, the active program and attribute
  configuration, and the per-draw render count.\<close>

definition tidy :: "stage \<Rightarrow> stage \<Rightarrow> bool" where
  "tidy s s' =
     (s' = s\<lparr>batchTextureOutput := batchTextureOutput s',
             batchTextureConcat := batchTextureConcat s',
             batchTextureTemp := batchTextureTemp s',
             bufferTextureOutput := bufferTextureOutput s',
             bufferTextureConcat := bufferTextureConcat s',
             bufferTextureTemp := bufferTextureTemp s',
             activeShader := activeShader s',
             activeConfig := activeConfig s',
             renderPerDraw := renderPerDraw s'\<rparr>)"




text \<open>
  C2. A draw call is consistent when the blend state it ran under is the table's blend
  state of the mode of every quad it drew, all its quads have one mode, and its vertex
  count is six times its number of quads. The blend invariant: the memoised records agree
  with the table, the context's blend state is that of the current render mode, every
  pending quad was appended under the current render mode, the cursor counts the pending
  quads, and every draw call so far was consistent.
\<close>

fun flush_consistent :: "event \<Rightarrow> bool" where
  "flush_consistent (BatchDrawn n b p cfg ms) =
     ((\<forall>m \<in> set ms. b = mode_blend m) \<and> (\<forall>m \<in> set ms. \<forall>m' \<in> set ms. m = m')
      \<and> n = INDICES_PER_CARD * int (length ms))"
| "flush_consistent (QuadWritten c m cfg i) = True"
| "flush_consistent (CoverDrawn b p) = True"
| "flush_consistent (SlotEvicted i t st b) = True"
| "flush_consistent (TextureDeleted t) = True"

definition blend_inv :: "stage \<Rightarrow> bool" where
  "blend_inv s =
     (shaders_consistent s
      \<and> gl_blend s = mode_blend (renderMode s)
      \<and> (\<forall>m \<in> set (pending s). m = renderMode s)
      \<and> batchVertexCount s = INDICES_PER_CARD * int (length (pending s))
      \<and> (\<forall>ev \<in> set (trace s). flush_consistent ev))"

definition flushed :: "stage \<Rightarrow> bool" where
  "flushed s = (blend_inv s \<and> pending s = [])"

text \<open>
  C3. An eviction is safe when the evicted occupant's stamp is strictly behind the batch
  counter at that moment (or the occupant has no stamp). A stage is \<open>idle\<close> when every
  stamp is strictly behind the batch counter and every eviction so far was safe; this is
  the state between draws. During a draw (\<open>batch_inv\<close>) a stamp may equal the batch
  counter, but only while quads are pending; \<open>batch_weak\<close> is the state between the
  stamping of a texture and the writing of its quad.
\<close>

fun evict_safe :: "event \<Rightarrow> bool" where
  "evict_safe (SlotEvicted i t st b) = (case st of None \<Rightarrow> True | Some k \<Rightarrow> k < b)"
| "evict_safe (QuadWritten c m cfg i) = True"
| "evict_safe (BatchDrawn n b p cfg ms) = True"
| "evict_safe (CoverDrawn b p) = True"
| "evict_safe (TextureDeleted t) = True"

definition evictions_safe :: "stage \<Rightarrow> bool" where
  "evictions_safe s = (\<forall>ev \<in> set (trace s). evict_safe ev)"

definition idle :: "stage \<Rightarrow> bool" where
  "idle s = ((\<forall>x b. o_batchID (heap s x) = Some b \<longrightarrow> b < batchID s) \<and> evictions_safe s)"




text \<open>A stage on which nothing has been drawn.\<close>

definition fresh :: "stage \<Rightarrow> bool" where
  "fresh s =
     (trace s = [] \<and> pending s = [] \<and> batchVertexCount s = 0 \<and> batchID s = 0
      \<and> (\<forall>x. o_batchID (heap s x) = None))"

text \<open>The stage without direct draw, after one Bitmap has been appended to the batch.\<close>

definition buffered_quad_stage :: stage where
  "buffered_quad_stage = state_of (appendToBatch (group [bitmap 100]) 1 False buffered_stage)"



section \<open>Construction: proofs\<close>

lemma resolveMode_known: "BLEND_SOURCES m = Some b \<Longrightarrow> resolveMode (Some m) = (m, b)"
  by (simp add: resolveMode_def)

lemma BLEND_SOURCES_source_over: "BLEND_SOURCES ''source-over'' = Some src0"
  by (simp add: BLEND_SOURCES_def BLEND_SOURCES_table_def)

lemma BLEND_SOURCES_multiply: "BLEND_SOURCES ''multiply'' = Some (shader_src ''multiply'')"
  by (simp add: BLEND_SOURCES_def BLEND_SOURCES_table_def)

lemma resolveMode_in_table: "resolveMode nm = (m, b) \<Longrightarrow> BLEND_SOURCES m = Some b"
  by (auto simp: resolveMode_def Let_def BLEND_SOURCES_source_over split: option.splits)

lemma renderBatch_idle: "batchVertexCount s \<le> 0 \<Longrightarrow> renderBatch s = Done s"
  by (simp add: renderBatch_def)


text \<open>What every stage returned by the constructor looks like.\<close>

lemma new_StageGL_facts:
  assumes "new_StageGL opts compiles g = Inr s0"
  shows "activeConfig s0 = Some DefaultConfig \<and> activeShader s0 \<noteq> None
     \<and> mainShader s0 = activeShader s0 \<and> batchVertexCount s0 = 0 \<and> batchID s0 = 0
     \<and> bufferGroupCount s0 = Some (Fin 0)
     \<and> maxBatchVertexCount s0 = maxBatchVertexCount_of (opt_batchSize opts)
     \<and> trace s0 = [] \<and> pending s0 = []"
  using assms
  by (auto simp: new_StageGL_def initMaterials_def createBuffers_def field_defaults_def
        createTexture_def upd_obj_def updateRenderMode_def
        resolveMode_known [OF BLEND_SOURCES_source_over] switchMode_def renderBatch_def
        andThen_def src0_def getRenderBufferTexture_def Let_def
      split: sum.splits option.splits if_splits prod.splits outcome.splits)

text \<open>The demonstration stages, evaluated.\<close>

lemma compile_demo: "compileMainShader (\<lambda>c. c \<le> 1) 8 = Inr 1"
  by (simp add: compileMainShader.simps halve_count_div)

lemmas ctor_defs =
  new_StageGL_def initMaterials_def createBuffers_def field_defaults_def
  constructed_autoPurge_def createTexture_def upd_obj_def new_obj_def
  updateRenderMode_def resolveMode_known [OF BLEND_SOURCES_source_over] switchMode_def
  renderBatch_def andThen_def src0_def blend_of_def default_blend_def
  getRenderBufferTexture_def js_set_def Let_def attributeConfig_def
  maxBatchVertexCount_of_def spec_capacity_def js_or_def js_truthy_def js_min_def js_max_def
  DEFAULT_MAX_BATCH_SIZE_def DEFAULT_MIN_BATCH_SIZE_def INDICES_PER_CARD_def
  demo_driver_def demo_options_def compile_demo

lemma constructed_eq: "new_StageGL demo_options demo_driver 8 = Inr constructed_stage"
  unfolding constructed_stage_def by (simp add: ctor_defs)

lemma constructed_fields:
  "activeConfig constructed_stage = Some DefaultConfig"
  "activeShader constructed_stage = Some (BatchProgram 1)"
  "mainShader constructed_stage = Some (BatchProgram 1)"
  "batchVertexCount constructed_stage = 0"
  "batchID constructed_stage = 0"
  "bufferGroupCount constructed_stage = Some (Fin 0)"
  "maxBatchVertexCount constructed_stage = Fin 3000"
  "renderMode constructed_stage = ''source-over''"
  "trace constructed_stage = []"
  "pending constructed_stage = []"
  "directDraw constructed_stage"
  "batchTextures constructed_stage = [Some 0]"
  "gl_blend constructed_stage = default_blend"
  unfolding constructed_stage_def by (simp_all add: ctor_defs)

lemmas batch_defs =
  demo_stage_def place_images_def bitmap_def group_def
  drawLeaf_def quadAndAfter_def acquireTexture_def loadTextureImage_def trackAndInsert_def
  insertTextureInBatch_def js_rem_def js_get_def placeTexture_def uploadFirstImage_def
  updateTextureImageData_def writeQuad_def overflowCheck_def useCache_of_def autoCaches_def
  truthy_str_def blacklisted_def

lemma quad_stage_eq:
  "appendToBatch (group [bitmap 100]) 1 False demo_stage = Done quad_stage"
  unfolding quad_stage_def demo_stage_def constructed_stage_def
  by (simp add: batch_defs ctor_defs)

lemma quad_stage_fields:
  "activeConfig quad_stage = Some DefaultConfig"
  "activeShader quad_stage = Some (BatchProgram 1)"
  "batchVertexCount quad_stage = 6"
  "batchID quad_stage = 0"
  "gl_blend quad_stage = default_blend"
  "pending quad_stage = [''source-over'']"
  "trace quad_stage =
     [QuadWritten 0 ''source-over'' DefaultConfig (Some 0), SlotEvicted 0 (Some 0) None 0]"
  "maxBatchVertexCount quad_stage = Fin 3000"
  "batchTextures quad_stage = [Some 103]"
  "o_batchID (heap quad_stage 103) = Some 0"
  "batchTextureCount quad_stage = 1"
  "lastTextureInsert quad_stage = 0"
  "slotBlacklist quad_stage = []"
  unfolding quad_stage_def demo_stage_def constructed_stage_def
  by (simp_all add: batch_defs ctor_defs)

lemmas capacity_defs =
  maxBatchVertexCount_of_def spec_capacity_def js_or_def js_truthy_def js_min_def js_max_def
  DEFAULT_MAX_BATCH_SIZE_def DEFAULT_MIN_BATCH_SIZE_def INDICES_PER_CARD_def

lemma maxBatchVertexCount_of_range:
  "\<exists>r. maxBatchVertexCount_of nb = Fin r \<and> 1020 \<le> r \<and> r \<le> 65520"
  by (cases nb) (auto simp: capacity_defs)

text \<open>
  The number stored in \<open>_maxBatchVertexCount\<close>: for every batch size whose numeric value
  is neither NaN (absent or non-numeric) nor 0 it is the batch size clamped between
  \<open>DEFAULT_MIN_BATCH_SIZE\<close> and \<open>DEFAULT_MAX_BATCH_SIZE\<close>, times \<open>INDICES_PER_CARD\<close>; for
  NaN and 0 it is \<open>DEFAULT_MAX_BATCH_SIZE * INDICES_PER_CARD\<close>. The clamp of the
  specification gives 1020 for a batch size of 0, the constructor reads 0 as "not given"
  (\<open>Number(batchSize) || DEFAULT_MAX_BATCH_SIZE\<close>) and stores 65520.
\<close>

lemma capacity_of_zero:
  "maxBatchVertexCount_of (Fin 0) = Fin 65520 \<and> spec_capacity (Fin 0) = Fin 1020"
  by (simp add: capacity_defs)

lemma capacity_formula:
  "maxBatchVertexCount_of nb =
     (if nb = NaN \<or> nb = Fin 0
      then Fin (of_int (DEFAULT_MAX_BATCH_SIZE * INDICES_PER_CARD))
      else spec_capacity nb)"
  by (cases nb) (auto simp: capacity_defs)

text \<open>
  C8: the vertex buffers do not get the stated capacity. \<open>_createBuffers\<close> runs inside
  \<open>_initializeWebGL\<close>, which the constructor calls before it assigns
  \<open>_maxBatchVertexCount\<close>; \<open>groupCount\<close> is therefore the field's initialiser 0 and the
  four arrays of the default configuration are allocated with length 0, whatever the
  batch size. On every stage the constructor returns, the arrays have \<open>groupCount\<close> 0
  while \<open>_maxBatchVertexCount\<close> holds the number computed from the batch size, which is
  at least 1020, and equals the specification's formula unless the batch size is NaN
  or 0.
\<close>

theorem C8_buffers_allocated_before_capacity:
  "new_StageGL opts compiles gpuTextureCount = Inr s \<longrightarrow>
     bufferGroupCount s = Some (Fin 0)
     \<and> maxBatchVertexCount s = maxBatchVertexCount_of (opt_batchSize opts)
     \<and> js_le (Fin 1020) (maxBatchVertexCount s)
     \<and> bufferGroupCount s \<noteq> Some (maxBatchVertexCount s)
     \<and> (opt_batchSize opts \<noteq> NaN \<and> opt_batchSize opts \<noteq> Fin 0 \<longrightarrow>
          maxBatchVertexCount s = spec_capacity (opt_batchSize opts))"
proof
  assume h: "new_StageGL opts compiles gpuTextureCount = Inr s"
  have f: "bufferGroupCount s = Some (Fin 0)
      \<and> maxBatchVertexCount s = maxBatchVertexCount_of (opt_batchSize opts)"
    using new_StageGL_facts [OF h] by simp
  obtain r where r: "maxBatchVertexCount_of (opt_batchSize opts) = Fin r" "1020 \<le> r"
    using maxBatchVertexCount_of_range [of "opt_batchSize opts"] by blast
  have g: "js_le (Fin 1020) (maxBatchVertexCount s)
      \<and> bufferGroupCount s \<noteq> Some (maxBatchVertexCount s)"
    using f r by simp
  have e: "opt_batchSize opts \<noteq> NaN \<and> opt_batchSize opts \<noteq> Fin 0 \<longrightarrow>
          maxBatchVertexCount s = spec_capacity (opt_batchSize opts)"
    using f capacity_formula [of "opt_batchSize opts"] by simp
  show "bufferGroupCount s = Some (Fin 0)
     \<and> maxBatchVertexCount s = maxBatchVertexCount_of (opt_batchSize opts)
     \<and> js_le (Fin 1020) (maxBatchVertexCount s)
     \<and> bufferGroupCount s \<noteq> Some (maxBatchVertexCount s)
     \<and> (opt_batchSize opts \<noteq> NaN \<and> opt_batchSize opts \<noteq> Fin 0 \<longrightarrow>
          maxBatchVertexCount s = spec_capacity (opt_batchSize opts))"
    using f g e by blast
qed

theorem C8_buffers_allocated_before_capacity_witness:
  "new_StageGL demo_options demo_driver 8 = Inr constructed_stage
   \<and> opt_batchSize demo_options = Fin 500
   \<and> bufferGroupCount constructed_stage = Some (Fin 0)
   \<and> maxBatchVertexCount constructed_stage = Fin 3000
   \<and> spec_capacity (Fin 500) = Fin 3000"
  using C8_buffers_allocated_before_capacity [of demo_options demo_driver 8 constructed_stage]
    constructed_eq
  by (simp add: demo_options_def capacity_defs)

lemma set_autoPurge_ok: "autoPurge_ok (set_autoPurge v)"
  by (cases v) (auto simp: autoPurge_ok_def set_autoPurge_def Let_def)

lemma constructed_autoPurge_ok: "autoPurge_ok (constructed_autoPurge opt)"
proof (cases opt)
  case None
  then show ?thesis by (simp add: constructed_autoPurge_def autoPurge_ok_def)
next
  case (Some v)
  then show ?thesis using set_autoPurge_ok [of v]
    by (simp add: constructed_autoPurge_def autoPurge_ok_def)
qed

lemma purge_modulus_ge5:
  assumes "autoPurge_ok ap" "ap \<noteq> Fin (- 1)" "js_lt ap (Fin 4294967296)"
  shows "5 \<le> purge_modulus ap"
proof -
  from assms obtain r where r: "ap = Fin r" "10 \<le> r" "r < 4294967296"
    by (cases ap) (auto simp: autoPurge_ok_def)
  have a: "5 \<le> \<lfloor>r / 2\<rfloor>" using r by (simp add: le_floor_iff)
  have b: "\<lfloor>r / 2\<rfloor> < 2147483648" using r by (simp add: floor_less_iff)
  show ?thesis using a b r by (simp add: purge_modulus_def js_trunc_def wrap_int32_id)
qed

text \<open>
  C10, as stated, fails in its consequence: the interval \<open>2^33\<close> is accepted by the setter
  and satisfies the interval invariant, yet \<open>(_autoPurge/2)|0\<close> is \<open>2^32\<close> truncated to
  32 bits, which is 0; the remainder in \<open>draw\<close> is then NaN and the purge is due at every
  draw.
\<close>

theorem C10_modulus_counterexample:
  "set_autoPurge (Fin 8589934592) = Fin 8589934592 \<and> autoPurge_ok (Fin 8589934592)
   \<and> purge_modulus (Fin 8589934592) = 0 \<and> js_rem 7 (purge_modulus (Fin 8589934592)) = None
   \<and> autoPurge_due 7 (Fin 8589934592)"
  by (simp add: set_autoPurge_def autoPurge_ok_def purge_modulus_def wrap_int32_def
        js_trunc_def autoPurge_due_def js_rem_def js_falsy_def)

text \<open>
  C10, amended: after construction and after every assignment to \<open>autoPurge\<close> the stored
  interval is \<open>-1\<close> or at least 10, a NaN input giving 1200; whenever the stored interval
  is not \<open>-1\<close> and is below \<open>2^32\<close>, the modulus \<open>(_autoPurge/2)|0\<close> is at least 5, so the
  remainder taken in \<open>draw\<close> is a number.
\<close>

theorem C10_autoPurge_interval:
  "autoPurge_ok (set_autoPurge v) \<and> autoPurge_ok (constructed_autoPurge opt)
   \<and> set_autoPurge NaN = Fin 1200
   \<and> (autoPurge_ok ap \<and> ap \<noteq> Fin (- 1) \<and> js_lt ap (Fin 4294967296)
        \<longrightarrow> 5 \<le> purge_modulus ap \<and> js_rem did (purge_modulus ap) \<noteq> None)"
proof -
  have "autoPurge_ok ap \<and> ap \<noteq> Fin (- 1) \<and> js_lt ap (Fin 4294967296)
        \<longrightarrow> 5 \<le> purge_modulus ap \<and> js_rem did (purge_modulus ap) \<noteq> None"
  proof
    assume h: "autoPurge_ok ap \<and> ap \<noteq> Fin (- 1) \<and> js_lt ap (Fin 4294967296)"
    then have "5 \<le> purge_modulus ap" by (simp add: purge_modulus_ge5)
    then show "5 \<le> purge_modulus ap \<and> js_rem did (purge_modulus ap) \<noteq> None"
      by (simp add: js_rem_def)
  qed
  moreover have "set_autoPurge NaN = Fin 1200" by (simp add: set_autoPurge_def)
  ultimately show ?thesis
    using set_autoPurge_ok constructed_autoPurge_ok by simp
qed

theorem C10_autoPurge_interval_witness:
  "autoPurge_ok (Fin 1200) \<and> Fin 1200 \<noteq> Fin (- 1) \<and> js_lt (Fin 1200) (Fin 4294967296)
   \<and> set_autoPurge (Fin 3) = Fin 10 \<and> constructed_autoPurge None = Fin 1200
   \<and> purge_modulus (Fin 1200) = 600 \<and> js_rem 1800 (purge_modulus (Fin 1200)) = Some 0"
  using C10_autoPurge_interval [of "Fin 3" None "Fin 1200" 1800]
  by (simp add: set_autoPurge_def autoPurge_ok_def constructed_autoPurge_def purge_modulus_def
        wrap_int32_def js_trunc_def js_rem_def)


section \<open>Initialisation: proofs\<close>

lemma attempts_stop: "ok c \<or> c \<le> 1 \<Longrightarrow> attempts ok c = [c]"
  by (subst attempts.simps) simp

lemma attempts_step:
  "\<not> ok c \<Longrightarrow> 1 < c \<Longrightarrow> attempts ok c = c # attempts ok (halve_count c)"
  by (subst attempts.simps) simp

lemma attempts_ne: "attempts ok c \<noteq> []"
  by (subst attempts.simps) simp

lemma hd_attempts: "hd (attempts ok c) = c"
  by (subst attempts.simps) simp

lemma compileMainShader_last:
  "compileMainShader ok c =
     (if ok (last (attempts ok c)) then Inr (last (attempts ok c))
      else Inl CannotCompileShader)"
proof (induction ok c rule: compileMainShader.induct)
  case (1 ok c)
  show ?case
  proof (cases "ok c \<or> c \<le> 1")
    case True
    then show ?thesis
      by (subst compileMainShader.simps) (auto simp: attempts_stop)
  next
    case False
    then show ?thesis using 1
      by (subst compileMainShader.simps) (simp add: attempts_step attempts_ne)
  qed
qed

lemma last_attempt_le1: "\<not> ok (last (attempts ok c)) \<Longrightarrow> last (attempts ok c) \<le> 1"
proof (induction ok c rule: attempts.induct)
  case (1 ok c)
  show ?case
  proof (cases "ok c \<or> c \<le> 1")
    case True
    then show ?thesis using 1(2) by (auto simp: attempts_stop)
  next
    case False
    then show ?thesis using 1 by (simp add: attempts_step attempts_ne)
  qed
qed

lemma attempts_chain: "c < 4294967296 \<Longrightarrow> halving_chain ok (attempts ok c)"
proof (induction ok c rule: attempts.induct)
  case (1 ok c)
  show ?case
  proof (cases "ok c \<or> c \<le> 1")
    case True
    then show ?thesis by (simp add: attempts_stop)
  next
    case False
    then have lt: "1 < c" by simp
    have hv: "halve_count c = c div 2" using lt 1(2) by (rule halve_count_div)
    have ih: "halving_chain ok (attempts ok (c div 2))"
      using 1 False hv by simp
    obtain y r where yr: "attempts ok (c div 2) = y # r"
      using attempts_ne [of ok "c div 2"] by (cases "attempts ok (c div 2)") auto
    have "y = c div 2" using hd_attempts [of ok "c div 2"] yr by simp
    then show ?thesis using False lt hv ih yr by (simp add: attempts_step)
  qed
qed

lemma attempts_ge1:
  "1 \<le> c \<Longrightarrow> c < 4294967296 \<Longrightarrow> \<forall>k \<in> set (attempts ok c). 1 \<le> k"
proof (induction ok c rule: attempts.induct)
  case (1 ok c)
  show ?case
  proof (cases "ok c \<or> c \<le> 1")
    case True
    then show ?thesis using 1(2) by (simp add: attempts_stop)
  next
    case False
    then have lt: "1 < c" by simp
    have hv: "halve_count c = c div 2" using lt 1(3) by (rule halve_count_div)
    have "\<forall>k \<in> set (attempts ok (halve_count c)). 1 \<le> k"
      using 1 False hv lt by simp
    then show ?thesis using False lt by (simp add: attempts_step)
  qed
qed

text \<open>
  C5: the retry loop of \<open>_initMaterials\<close>. For a texture-unit count \<open>c\<close> as the driver
  reports it (a 32-bit integer), the loop is total; the counts it tries start at \<open>c\<close> and
  each rejected count above 1 is followed by its half (integer division); it throws
  exactly when the last count tried is rejected, and that count is then at most 1 (exactly
  1 when \<open>c\<close> is at least 1); otherwise it ends with the last count tried, which the
  driver accepts.
\<close>

theorem C5_shader_degradation:
  assumes "c < 2147483648"
  shows "hd (attempts ok c) = c \<and> halving_chain ok (attempts ok c)
     \<and> (compileMainShader ok c = Inl CannotCompileShader
          \<longleftrightarrow> \<not> ok (last (attempts ok c)) \<and> last (attempts ok c) \<le> 1)
     \<and> (compileMainShader ok c = Inr k \<longleftrightarrow> k = last (attempts ok c) \<and> ok k)
     \<and> (1 \<le> c \<and> compileMainShader ok c = Inl CannotCompileShader
          \<longrightarrow> last (attempts ok c) = 1)"
proof -
  have lt: "c < 4294967296" using assms by simp
  have a: "hd (attempts ok c) = c" by (rule hd_attempts)
  have b: "halving_chain ok (attempts ok c)" using lt by (rule attempts_chain)
  have c1: "compileMainShader ok c = Inl CannotCompileShader
          \<longleftrightarrow> \<not> ok (last (attempts ok c)) \<and> last (attempts ok c) \<le> 1"
    using last_attempt_le1 [of ok c] by (auto simp: compileMainShader_last [of ok c])
  have c2: "compileMainShader ok c = Inr k \<longleftrightarrow> k = last (attempts ok c) \<and> ok k"
    by (auto simp: compileMainShader_last [of ok c])
  have c3: "1 \<le> c \<and> compileMainShader ok c = Inl CannotCompileShader
          \<longrightarrow> last (attempts ok c) = 1"
  proof
    assume h: "1 \<le> c \<and> compileMainShader ok c = Inl CannotCompileShader"
    then have "last (attempts ok c) \<le> 1" using c1 by simp
    moreover have "1 \<le> last (attempts ok c)"
      using attempts_ge1 [of c ok] h lt attempts_ne [of ok c] last_in_set by blast
    ultimately show "last (attempts ok c) = 1" by simp
  qed
  show ?thesis using a b c1 c2 c3 by blast
qed

lemma attempts_8_fail: "attempts (\<lambda>k. False) 8 = [8, 4, 2, 1]"
  by (simp add: attempts_step attempts_stop halve_count_div)

lemma attempts_8_two: "attempts (\<lambda>k. k \<le> 2) 8 = [8, 4, 2]"
  by (simp add: attempts_step attempts_stop halve_count_div)

theorem C5_shader_degradation_witness:
  "(8::int) < 2147483648 \<and> attempts (\<lambda>k. k \<le> 2) 8 = [8, 4, 2]
   \<and> compileMainShader (\<lambda>k. k \<le> 2) 8 = Inr 2
   \<and> attempts (\<lambda>k. False) 8 = [8, 4, 2, 1]
   \<and> compileMainShader (\<lambda>k. False) 8 = Inl CannotCompileShader"
  using C5_shader_degradation [of 8 "\<lambda>k. k \<le> 2" 2] C5_shader_degradation [of 8 "\<lambda>k. False" 0]
  by (simp add: attempts_8_fail attempts_8_two)


section \<open>Flush and render modes: proofs\<close>

text \<open>
  C4: \<open>_renderBatch\<close> with no pending vertex returns the stage as it was (cursor, batch
  counter, buffers and everything else) and throws nothing. With a positive cursor, on a
  stage that has an active attribute configuration and an active program, it issues one
  draw call for the whole cursor under the current blend state and program, sets the
  cursor to zero and increments the batch counter by one. With a positive cursor on a
  stage that lacks one of the two it throws a TypeError after counting the render, and
  cursor and batch counter stay as they were. Every stage the constructor returns has
  both.
\<close>

theorem C4_flush_completeness:
  "(batchVertexCount s \<le> 0 \<longrightarrow> renderBatch s = Done s)
   \<and> (0 < batchVertexCount s \<and> activeConfig s = Some cfg \<and> activeShader s \<noteq> None \<longrightarrow>
        renderBatch s = Done (state_of (renderBatch s))
        \<and> batchVertexCount (state_of (renderBatch s)) = 0
        \<and> batchID (state_of (renderBatch s)) = batchID s + 1
        \<and> trace (state_of (renderBatch s)) =
            BatchDrawn (batchVertexCount s) (gl_blend s) (activeShader s) cfg (pending s) # trace s)
   \<and> (0 < batchVertexCount s \<and> (activeConfig s = None \<or> activeShader s = None) \<longrightarrow>
        renderBatch s = Abort TypeError (s\<lparr>renderPerDraw := renderPerDraw s + 1\<rparr>))
   \<and> (new_StageGL opts compiles gpuTextureCount = Inr s0 \<longrightarrow>
        activeConfig s0 = Some DefaultConfig \<and> activeShader s0 \<noteq> None
        \<and> batchVertexCount s0 = 0)"
proof -
  have a: "batchVertexCount s \<le> 0 \<longrightarrow> renderBatch s = Done s"
    by (simp add: renderBatch_def)
  have b: "0 < batchVertexCount s \<and> activeConfig s = Some cfg \<and> activeShader s \<noteq> None \<longrightarrow>
        renderBatch s = Done (state_of (renderBatch s))
        \<and> batchVertexCount (state_of (renderBatch s)) = 0
        \<and> batchID (state_of (renderBatch s)) = batchID s + 1
        \<and> trace (state_of (renderBatch s)) =
            BatchDrawn (batchVertexCount s) (gl_blend s) (activeShader s) cfg (pending s) # trace s"
    by (simp add: renderBatch_def Let_def)
  have c: "0 < batchVertexCount s \<and> (activeConfig s = None \<or> activeShader s = None) \<longrightarrow>
        renderBatch s = Abort TypeError (s\<lparr>renderPerDraw := renderPerDraw s + 1\<rparr>)"
    by (auto simp: renderBatch_def Let_def split: option.splits)
  have d: "new_StageGL opts compiles gpuTextureCount = Inr s0 \<longrightarrow>
        activeConfig s0 = Some DefaultConfig \<and> activeShader s0 \<noteq> None
        \<and> batchVertexCount s0 = 0"
    using new_StageGL_facts [of opts compiles gpuTextureCount s0] by blast
  show ?thesis using a b c d by blast
qed

theorem C4_flush_completeness_witness:
  "new_StageGL demo_options demo_driver 8 = Inr constructed_stage
   \<and> batchVertexCount constructed_stage \<le> 0
   \<and> renderBatch constructed_stage = Done constructed_stage
   \<and> appendToBatch (group [bitmap 100]) 1 False (place_images constructed_stage)
       = Done quad_stage
   \<and> 0 < batchVertexCount quad_stage \<and> activeConfig quad_stage = Some DefaultConfig
   \<and> activeShader quad_stage \<noteq> None
   \<and> renderBatch quad_stage = Done (state_of (renderBatch quad_stage))
   \<and> batchVertexCount (state_of (renderBatch quad_stage)) = 0
   \<and> batchID (state_of (renderBatch quad_stage)) = 1
   \<and> trace (state_of (renderBatch quad_stage)) =
        [BatchDrawn 6 default_blend (Some (BatchProgram 1)) DefaultConfig [''source-over''],
         QuadWritten 0 ''source-over'' DefaultConfig (Some 0),
         SlotEvicted 0 (Some 0) None 0]
   \<and> 0 < batchVertexCount (quad_stage\<lparr>activeShader := None\<rparr>)
   \<and> renderBatch (quad_stage\<lparr>activeShader := None\<rparr>)
       = Abort TypeError (quad_stage\<lparr>activeShader := None, renderPerDraw := renderPerDraw quad_stage + 1\<rparr>)"
proof -
  have w: "appendToBatch (group [bitmap 100]) 1 False (place_images constructed_stage)
       = Done quad_stage"
    using quad_stage_eq by (simp add: demo_stage_def)
  show ?thesis
    using C4_flush_completeness [of constructed_stage DefaultConfig demo_options demo_driver 8
            constructed_stage]
      C4_flush_completeness [of quad_stage DefaultConfig demo_options demo_driver 8
            constructed_stage]
      C4_flush_completeness [of "quad_stage\<lparr>activeShader := None\<rparr>"
            DefaultConfig demo_options demo_driver 8 constructed_stage]
      w constructed_eq
    by (simp add: constructed_fields quad_stage_fields)
qed

definition direct_stage :: stage where
  "direct_stage = (field_defaults (\<lambda>p. True))\<lparr>directDraw := True\<rparr>"

lemma shaders_consistent_defaults: "shaders_consistent ((field_defaults c)\<lparr>directDraw := d\<rparr>)"
  by (simp add: shaders_consistent_def field_defaults_def)

text \<open>
  C6, as stated, fails in its first clause: the first request for \<open>multiply\<close> on a
  direct-draw stage builds the mode's record and memoises it in \<open>_builtShaders\<close> before
  the request is rejected, so the stage after the call is not the stage before it.
\<close>

theorem C6_state_change_counterexample:
  "builtShaders direct_stage ''multiply'' = None
   \<and> builtShaders (state_of (updateRenderMode (Some ''multiply'') direct_stage)) ''multiply'' \<noteq> None
   \<and> state_of (updateRenderMode (Some ''multiply'') direct_stage) \<noteq> direct_stage"
proof -
  have a: "builtShaders direct_stage ''multiply'' = None"
    by (simp add: direct_stage_def field_defaults_def)
  have b: "builtShaders (state_of (updateRenderMode (Some ''multiply'') direct_stage)) ''multiply'' \<noteq> None"
    by (simp add: updateRenderMode_def resolveMode_known [OF BLEND_SOURCES_multiply]
          switchMode_def direct_stage_def field_defaults_def shader_src_def src0_def)
  from a b have "state_of (updateRenderMode (Some ''multiply'') direct_stage) \<noteq> direct_stage"
    by (metis)
  then show ?thesis using a b by simp
qed

text \<open>
  C6, amended: under direct draw, a request for a mode whose table entry has a shader
  returns without switching and without an exception. The stage is left as it was in
  every field (render mode, GL blend state, attribute configuration, immediate flag,
  cursor, batch counter, draw history: no flush) except that the record built for the
  mode is memoised in \<open>_builtShaders\<close> under that name.
\<close>

theorem C6_immediate_rejected:
  assumes dd: "directDraw s" and tb: "BLEND_SOURCES m = Some b" and sh: "b_shader b \<noteq> None"
    and memo: "shaders_consistent s"
  shows "updateRenderMode (Some m) s
           = Done (s\<lparr>builtShaders := builtShaders (state_of (updateRenderMode (Some m) s))\<rparr>)
     \<and> (\<forall>m'. m' \<noteq> m \<longrightarrow>
           builtShaders (state_of (updateRenderMode (Some m) s)) m' = builtShaders s m')
     \<and> renderMode (state_of (updateRenderMode (Some m) s)) = renderMode s
     \<and> gl_blend (state_of (updateRenderMode (Some m) s)) = gl_blend s
     \<and> activeConfig (state_of (updateRenderMode (Some m) s)) = activeConfig s
     \<and> immediateRender (state_of (updateRenderMode (Some m) s)) = immediateRender s
     \<and> batchVertexCount (state_of (updateRenderMode (Some m) s)) = batchVertexCount s
     \<and> batchID (state_of (updateRenderMode (Some m) s)) = batchID s
     \<and> trace (state_of (updateRenderMode (Some m) s)) = trace s"
proof -
  have imm: "\<And>d. builtShaders s m = Some d \<Longrightarrow> sd_immediate d"
    using memo tb sh by (simp add: shaders_consistent_def mode_immediate_def mode_source_def)
  have eq: "updateRenderMode (Some m) s
           = Done (s\<lparr>builtShaders := builtShaders (state_of (updateRenderMode (Some m) s))\<rparr>)
     \<and> (\<forall>m'. m' \<noteq> m \<longrightarrow>
           builtShaders (state_of (updateRenderMode (Some m) s)) m' = builtShaders s m')"
    using dd sh imm
    by (auto simp: updateRenderMode_def resolveMode_known [OF tb] switchMode_def
          split: option.splits)
  then have eq1: "state_of (updateRenderMode (Some m) s)
           = s\<lparr>builtShaders := builtShaders (state_of (updateRenderMode (Some m) s))\<rparr>"
    by (metis state_of.simps(1))
  have "renderMode (state_of (updateRenderMode (Some m) s)) = renderMode s
     \<and> gl_blend (state_of (updateRenderMode (Some m) s)) = gl_blend s
     \<and> activeConfig (state_of (updateRenderMode (Some m) s)) = activeConfig s
     \<and> immediateRender (state_of (updateRenderMode (Some m) s)) = immediateRender s
     \<and> batchVertexCount (state_of (updateRenderMode (Some m) s)) = batchVertexCount s
     \<and> batchID (state_of (updateRenderMode (Some m) s)) = batchID s
     \<and> trace (state_of (updateRenderMode (Some m) s)) = trace s"
    by (subst eq1, simp)+
  then show ?thesis using eq by blast
qed


theorem C6_immediate_rejected_witness:
  "directDraw direct_stage \<and> BLEND_SOURCES ''multiply'' = Some (shader_src ''multiply'')
   \<and> b_shader (shader_src ''multiply'') \<noteq> None \<and> shaders_consistent direct_stage
   \<and> renderMode (state_of (updateRenderMode (Some ''multiply'') direct_stage)) = []
   \<and> gl_blend (state_of (updateRenderMode (Some ''multiply'') direct_stage)) = default_blend
   \<and> trace (state_of (updateRenderMode (Some ''multiply'') direct_stage)) = []"
  using C6_immediate_rejected [of direct_stage "''multiply''" "shader_src ''multiply''"]
    shaders_consistent_defaults [where c = "\<lambda>p. True" and d = True] BLEND_SOURCES_multiply
  by (simp add: direct_stage_def field_defaults_def shader_src_def src0_def)


section \<open>Steps of a draw: invariants in general\<close>

lemma holds_Done [simp]: "holds P Q (Done s) = P s"
  by (simp add: holds_def)

lemma holds_Abort [simp]: "holds P Q (Abort e s) = Q s"
  by (simp add: holds_def)

lemma holds_andThen:
  assumes "holds P Q r" and "\<And>s. P s \<Longrightarrow> holds P' Q (f s)"
  shows "holds P' Q (andThen r f)"
  using assms by (cases r) (simp_all add: andThen_def)

lemma holds_mono:
  "holds P Q r \<Longrightarrow> (\<And>s. P s \<Longrightarrow> P' s) \<Longrightarrow> (\<And>s. Q s \<Longrightarrow> Q' s) \<Longrightarrow> holds P' Q' r"
  by (cases r) simp_all

lemma holds_state: "holds P P r \<Longrightarrow> P (state_of r)"
  by (cases r) simp_all

lemma state_holds: "P (state_of r) \<Longrightarrow> holds P P r"
  by (cases r) simp_all

lemma calm_refl: "calm s s"
  by (simp add: calm_def)

lemma calm_trans: "calm s s1 \<Longrightarrow> calm s1 s2 \<Longrightarrow> calm s s2"
  unfolding calm_def by (elim conjE, intro conjI) (simp_all, blast)

lemma frame_calm: "frame s s' \<Longrightarrow> calm s s'"
  by (simp add: frame_def)

lemma frame_refl: "frame s s"
  by (simp add: frame_def calm_refl)

lemma frame_trans: "frame s s1 \<Longrightarrow> frame s1 s2 \<Longrightarrow> frame s s2"
  unfolding frame_def using calm_trans by (elim conjE, intro conjI) (blast, blast, metis)

lemma frame_upd_obj:
  "(\<And>x. o_batchID (g x) = o_batchID x) \<Longrightarrow> frame s (upd_obj r g s)"
  by (simp add: frame_def calm_def upd_obj_def)

lemma frame_createTexture: "frame s (snd (createTexture s))"
  by (simp add: frame_def calm_def createTexture_def new_obj_def)

lemma frame_getRenderBufferTexture: "frame s (snd (getRenderBufferTexture s))"
  by (simp add: frame_def calm_def getRenderBufferTexture_def createTexture_def new_obj_def upd_obj_def
        split_def Let_def)

lemma frame_updateTextureImageData: "frame s (state_of (updateTextureImageData img s))"
  by (simp add: frame_def calm_def updateTextureImageData_def upd_obj_def Let_def split: option.splits)

lemma frame_uploadFirstImage: "frame s (state_of (uploadFirstImage t s))"
  using frame_updateTextureImageData frame_refl
  by (simp add: uploadFirstImage_def Let_def split: option.splits list.splits)

lemma clear_storeIDs_batchID [simp]: "o_batchID (clear_storeIDs data h x) = o_batchID (h x)"
proof -
  have "\<And>h. o_batchID (fold (\<lambda>i h'. h'(i := (h' i)\<lparr>o_storeID := None\<rparr>)) xs h x) = o_batchID (h x)" for xs
    by (induction xs) simp_all
  then show ?thesis by (simp add: clear_storeIDs_def)
qed

lemma frame_kill: "frame s (killTextureObject t s)"
  by (auto simp: frame_def calm_def killTextureObject_def upd_obj_def Let_def split: option.splits)

lemma sweep_batchID: "o_batchID (snd (sweep rd c d data h) x) = o_batchID (h x)"
  by (induction data arbitrary: h) (simp_all add: split_def Let_def)

lemma frame_purgeAt: "frame s (purgeAt rd c i s)"
proof -
  have a: "frame s (upd_obj t (\<lambda>x. x\<lparr>o_imageData := Some k\<rparr>)
                 (s\<lparr>heap := snd (sweep rd c (drawID s) data (heap s))\<rparr>))" for t k data
    by (simp add: frame_def calm_def upd_obj_def sweep_batchID)
  show ?thesis
    using a frame_kill frame_trans frame_refl
    by (simp add: purgeAt_def split_def Let_def split: option.splits) blast
qed

lemma frame_fold_purgeAt: "frame s (fold (purgeAt rd c) xs s)"
proof (induction xs arbitrary: s)
  case Nil
  then show ?case by (simp add: frame_refl)
next
  case (Cons a xs)
  show ?case using frame_trans [OF frame_purgeAt Cons] by simp
qed

lemma frame_purgeTextures: "frame s (purgeTextures rd c s)"
  by (simp add: purgeTextures_def frame_fold_purgeAt)

lemma state_of_andThen:
  "state_of (andThen r f) = (case r of Done s \<Rightarrow> state_of (f s) | Abort e s \<Rightarrow> s)"
  by (cases r) (simp_all add: andThen_def)

lemma calm_placeTexture: "calm s (state_of (placeTexture t f s))"
proof -
  let ?s1 = "(upd_obj t (\<lambda>x. x\<lparr>o_activeIndex := Some f\<rparr>) s)
                 \<lparr>batchTextures := js_set (batchTextures s) f (Some t),
                  trace := SlotEvicted f (js_get (batchTextures s) (Some f))
                     (case js_get (batchTextures s) (Some f) of None \<Rightarrow> None
                      | Some u \<Rightarrow> o_batchID (heap s u)) (batchID s) # trace s\<rparr>"
  have a: "calm s ?s1" by (auto simp: calm_def upd_obj_def)
  have b: "calm ?s1 (state_of (uploadFirstImage t ?s1))"
    by (rule frame_calm [OF frame_uploadFirstImage])
  have c: "state_of (placeTexture t f s)
        = (case uploadFirstImage t ?s1 of Done s2 \<Rightarrow> s2\<lparr>lastTextureInsert := f\<rparr>
           | Abort e s2 \<Rightarrow> s2)"
    by (simp add: placeTexture_def Let_def andThen_def split: outcome.splits)
  have d: "calm (state_of (uploadFirstImage t ?s1)) (state_of (placeTexture t f s))"
    by (simp add: c calm_def split: outcome.splits)
  show ?thesis using calm_trans [OF a calm_trans [OF b d]] .
qed

lemma insert_shape:
  "\<exists>s0. (s0 = s \<or> s0 = state_of (renderBatch s))
       \<and> calm s0 (state_of (insertTextureInBatch t s))"
proof -
  let ?pre = "(if js_get (batchTextures s) (o_activeIndex (heap s t)) \<noteq> Some t then
          (case js_rem (lastTextureInsert s + 1) (batchTextureCount s) of
             None \<Rightarrow> Abort TypeError s
           | Some start \<Rightarrow>
               (case scanSlots (nat \<bar>batchTextureCount s\<bar>) s start start of
                  ScanTypeError \<Rightarrow> Abort TypeError s
                | ScanLimit \<Rightarrow> Abort IterationLimit s
                | Found f \<Rightarrow> placeTexture t f s
                | NotFound \<Rightarrow> andThen (renderBatch s) (placeTexture t start)))
        else if o_drawID (heap s t) \<noteq> Some (drawID s) then uploadFirstImage t s
        else Done s)"
  have fl: "calm (state_of (renderBatch s))
              (state_of (andThen (renderBatch s) (placeTexture t start)))" for start
    using calm_placeTexture calm_refl
    by (cases "renderBatch s") (simp_all add: andThen_def)
  have pre: "\<exists>s0. (s0 = s \<or> s0 = state_of (renderBatch s)) \<and> calm s0 (state_of ?pre)"
    using calm_placeTexture calm_refl frame_calm [OF frame_uploadFirstImage] fl
    by (auto split: option.splits scan_result.splits)
  have post: "calm (state_of ?pre) (state_of (insertTextureInBatch t s))"
    by (simp add: insertTextureInBatch_def andThen_def calm_def upd_obj_def split: outcome.splits)
  show ?thesis using pre post calm_trans by blast
qed

lemma trackAndInsert_frame:
  "\<exists>s1. frame s s1 \<and> trackAndInsert img t k s = (Some t, insertTextureInBatch t s1)"
proof -
  let ?s1 = "(if o_storeID (heap s t) \<noteq> Some (- 1)
                then upd_obj t
                       (\<lambda>x. x\<lparr>o_storeID := Some k,
                              o_imageData := Some (case o_imageData x of
                                                     Some d \<Rightarrow> d @ [img]
                                                   | None \<Rightarrow> [img])\<rparr>) s
                else s)"
  have f: "frame s ?s1" by (simp add: frame_refl frame_upd_obj)
  have e: "trackAndInsert img t k s = (Some t, insertTextureInBatch t ?s1)"
    by (simp add: trackAndInsert_def Let_def)
  show ?thesis using f e by blast
qed

lemma load_frame: "load_result s (loadTextureImage img s)"
proof -
  have stop: "load_result s (None, Done s')" "load_result s (None, Abort TypeError s')"
    if "frame s s'" for s'
    using that unfolding load_result_def by blast+
  have go: "load_result s (trackAndInsert img t k sA)" if "frame s sA" for sA t k
    using trackAndInsert_frame [of sA img t k] that frame_trans unfolding load_result_def
    by metis
  have key: "load_result s
          (case textureIDs sB key of
             None \<Rightarrow>
               (let storeID = int (length (textureDictionary sB));
                    s1 = upd_obj img (\<lambda>x. x\<lparr>o_storeID := Some storeID, o_invalid := Some True\<rparr>)
                           (sB\<lparr>textureIDs := (textureIDs sB)(key := Some storeID)\<rparr>);
                    (t, s2) = createTexture s1;
                    s3 = s2\<lparr>textureDictionary := js_set (textureDictionary s2) storeID (Some t)\<rparr>
                in trackAndInsert img t storeID s3)
           | Some storeID \<Rightarrow>
               (let s1 = upd_obj img (\<lambda>x. x\<lparr>o_storeID := Some storeID\<rparr>) sB in
                case js_get (textureDictionary s1) (Some storeID) of
                  None \<Rightarrow> (None, Abort TypeError s1)
                | Some t \<Rightarrow> trackAndInsert img t storeID s1))"
    if fb: "frame s sB" for sB key
  proof (cases "textureIDs sB key")
    case None
    let ?k = "int (length (textureDictionary sB))"
    let ?s1 = "upd_obj img (\<lambda>x. x\<lparr>o_storeID := Some ?k, o_invalid := Some True\<rparr>)
                           (sB\<lparr>textureIDs := (textureIDs sB)(key := Some ?k)\<rparr>)"
    let ?s2 = "snd (createTexture ?s1)"
    let ?s3 = "?s2\<lparr>textureDictionary := js_set (textureDictionary ?s2) ?k (Some (fst (createTexture ?s1)))\<rparr>"
    have "frame sB ?s1" by (simp add: frame_def calm_def upd_obj_def)
    moreover have "frame ?s1 ?s2" by (rule frame_createTexture)
    moreover have "frame ?s2 ?s3" by (simp add: frame_def calm_def)
    ultimately have "frame s ?s3" using fb frame_trans by blast
    then show ?thesis using None go [of ?s3] by (simp add: Let_def split_def)
  next
    case (Some k)
    let ?s1 = "upd_obj img (\<lambda>x. x\<lparr>o_storeID := Some k\<rparr>) sB"
    have f1: "frame s ?s1" using fb frame_trans frame_upd_obj [of _ sB img] by fastforce
    show ?thesis
      using Some go [OF f1] stop(2) [OF f1]
      by (simp add: Let_def split: option.splits)
  qed
  show ?thesis
  proof (cases "o_kind (heap s img)")
    case (ImageEl src)
    then show ?thesis using stop(1) [OF frame_refl] key [OF frame_refl]
      by (simp add: loadTextureImage_def)
  next
    case CanvasEl
    let ?s0 = "(upd_obj img (\<lambda>x. x\<lparr>o_isCanvas := True\<rparr>) s)
                        \<lparr>lastTrackedCanvas := lastTrackedCanvas s + 1\<rparr>"
    have "frame s ?s0" by (simp add: frame_def calm_def upd_obj_def)
    then show ?thesis using CanvasEl key [of ?s0] by (simp add: loadTextureImage_def)
  next
    case TextureObj
    then show ?thesis using stop(1) [OF frame_refl] by (simp add: loadTextureImage_def)
  next
    case OtherEl
    then show ?thesis using stop(1) [OF frame_refl] by (simp add: loadTextureImage_def)
  qed
qed

lemma acquire_generic:
  assumes F: "\<And>s s'. frame s s' \<Longrightarrow> P s \<Longrightarrow> P s'"
    and I: "\<And>t s. P s \<Longrightarrow> holds W Q (insertTextureInBatch t s)"
    and PW: "\<And>s. P s \<Longrightarrow> W s"
    and PQ: "\<And>s. P s \<Longrightarrow> Q s"
    and p: "P s"
  shows "case acquireTexture img s of
           Acquired t s' \<Rightarrow> W s' | Skipped s' \<Rightarrow> P s' | Failed e s' \<Rightarrow> Q s'"
proof (cases "o_storeID (heap s img)")
  case None
  obtain s1 where f: "frame s s1"
    and r: "loadTextureImage img s = (None, Done s1) \<or> loadTextureImage img s = (None, Abort TypeError s1)
         \<or> (\<exists>t. loadTextureImage img s = (Some t, insertTextureInBatch t s1))"
    using load_frame [of s img] unfolding load_result_def by blast
  have p1: "P s1" by (rule F [OF f p])
  have w1: "Q s1" by (rule PQ [OF p1])
  from r show ?thesis
  proof (elim disjE exE)
    assume "loadTextureImage img s = (None, Done s1)"
    then show ?thesis using None w1 by (simp add: acquireTexture_def)
  next
    assume "loadTextureImage img s = (None, Abort TypeError s1)"
    then show ?thesis using None w1 by (simp add: acquireTexture_def)
  next
    fix t assume "loadTextureImage img s = (Some t, insertTextureInBatch t s1)"
    then show ?thesis
      using None I [OF p1, of t]
      by (cases "insertTextureInBatch t s1") (simp_all add: acquireTexture_def)
  qed
next
  case (Some k)
  show ?thesis
  proof (cases "js_get (textureDictionary s) (Some k)")
    case None
    then show ?thesis using Some p by (simp add: acquireTexture_def)
  next
    case (Some t)
    show ?thesis
      using Some \<open>o_storeID (heap s img) = Some k\<close> PW [OF p] I [OF p, of t]
      by (cases "insertTextureInBatch t s") (simp_all add: acquireTexture_def)
  qed
qed

lemma insert_calm_generic:
  assumes C: "\<And>s s'. calm s s' \<Longrightarrow> P s \<Longrightarrow> P s'"
    and B: "\<And>s. P s \<Longrightarrow> holds P P (renderBatch s)"
    and p: "P s"
  shows "holds P P (insertTextureInBatch t s)"
proof -
  obtain s0 where b: "s0 = s \<or> s0 = state_of (renderBatch s)"
    and c: "calm s0 (state_of (insertTextureInBatch t s))"
    using insert_shape [of s t] by blast
  have "P s0" using b p holds_state [OF B [OF p]] by blast
  then have "P (state_of (insertTextureInBatch t s))" using C [OF c] by simp
  then show ?thesis by (rule state_holds)
qed

lemma acquire_calm_generic:
  assumes C: "\<And>s s'. calm s s' \<Longrightarrow> P s \<Longrightarrow> P s'"
    and B: "\<And>s. P s \<Longrightarrow> holds P P (renderBatch s)"
    and p: "P s"
  shows "case acquireTexture img s of
           Acquired t s' \<Rightarrow> P s' | Skipped s' \<Rightarrow> P s' | Failed e s' \<Rightarrow> P s'"
proof (rule acquire_generic [where P = P and W = P and Q = P])
  show "P s'" if "frame s s'" "P s" for s s'
    using C [OF frame_calm] that by blast
  show "holds P P (insertTextureInBatch t s)" if "P s" for t s
    using insert_calm_generic [of P s t] C B that by blast
  show "P s" by (rule p)
qed simp_all

lemma leaf_generic:
  assumes U: "\<And>m s. P s \<Longrightarrow> holds P Q (updateRenderMode m s)"
    and O: "\<And>s. P s \<Longrightarrow> holds R Q (overflowCheck s)"
    and RP: "\<And>s. R s \<Longrightarrow> P s"
    and A: "\<And>img s. R s \<Longrightarrow>
              (case acquireTexture img s of
                 Acquired t s' \<Rightarrow> R' s' | Skipped s' \<Rightarrow> P s' | Failed e s' \<Rightarrow> Q s')"
    and X: "\<And>img d s. R' s \<Longrightarrow> Q (upd_obj img (\<lambda>x. x\<lparr>o_drawID := d\<rparr>) s)"
    and W: "\<And>img t s. R' s \<Longrightarrow> holds P Q (writeQuad img t s)"
    and I: "\<And>c s. P s \<Longrightarrow> holds P Q (immediateBatchRender (s\<lparr>activeConfig := c\<rparr>))"
    and p: "P s"
  shows "holds P Q (drawLeaf it uc s)"
proof -
  have tail: "holds P Q (quadAndAfter img t m s3)" if r3: "R' s3" for img t m s3
    unfolding quadAndAfter_def
  proof (rule holds_andThen [OF W [OF r3]])
    fix s4 assume p4: "P s4"
    have mid: "holds P Q (if immediateRender s4
                 then immediateBatchRender (s4\<lparr>activeConfig := attributeConfig DefaultConfig s4\<rparr>)
                 else Done s4)"
      using I [OF p4] p4 by simp
    show "holds P Q (andThen (if immediateRender s4
                 then immediateBatchRender (s4\<lparr>activeConfig := attributeConfig DefaultConfig s4\<rparr>)
                 else Done s4)
                (\<lambda>s5. if renderMode s5 \<noteq> m then updateRenderMode (Some m) s5 else Done s5))"
      by (rule holds_andThen [OF mid]) (simp add: U)
  qed
  have body: "holds P Q (case leaf_image (i_content it) uc of
                   None \<Rightarrow> Done s2
                 | Some img \<Rightarrow>
                     (case acquireTexture img s2 of
                        Skipped s3 \<Rightarrow> Done s3
                      | Failed e s3 \<Rightarrow> Abort e s3
                      | Acquired t s3 \<Rightarrow>
                          if uc \<noteq> None \<and> \<not> has_cache_record (i_bitmapCache it)
                          then Abort TypeError
                                 (upd_obj img (\<lambda>x. x\<lparr>o_drawID := Some (drawID s3)\<rparr>) s3)
                          else quadAndAfter img t m s3))" if r2: "R s2" for s2 m
  proof (cases "leaf_image (i_content it) uc")
    case None
    then show ?thesis using RP [OF r2] by simp
  next
    case (Some img)
    show ?thesis
    proof (cases "acquireTexture img s2")
      case (Acquired t s3)
      have r3: "R' s3" using A [OF r2, of img] Acquired by simp
      show ?thesis using Some Acquired X [OF r3] tail [OF r3] by simp
    next
      case (Skipped s3)
      then show ?thesis using A [OF r2, of img] Some by simp
    next
      case (Failed e s3)
      then show ?thesis using A [OF r2, of img] Some by simp
    qed
  qed
  have first: "holds P Q (if truthy_str (i_compositeOperation it)
               then updateRenderMode (i_compositeOperation it) s else Done s)"
    using U [OF p] p by simp
  show ?thesis
    unfolding drawLeaf_def Let_def
    by (rule holds_andThen [OF first], rule holds_andThen [OF O], assumption, rule body)
qed

lemma traversal_generic:
  assumes U: "\<And>m s. P s \<Longrightarrow> holds P Q (updateRenderMode m s)"
    and B: "\<And>s. P s \<Longrightarrow> Q (state_of (renderBatch s))"
    and L: "\<And>it uc s. P s \<Longrightarrow> holds P Q (drawLeaf it uc s)"
    and PQ: "\<And>s. P s \<Longrightarrow> Q s"
  shows "P s \<Longrightarrow> holds P Q (appendToBatch it a ic s)"
    and "P s \<Longrightarrow> holds P Q (appendChildren its a ic s)"
    and "P s \<Longrightarrow> holds P Q (appendChild it a ic s)"
proof (induction it a ic s and its a ic s and it a ic s
       rule: appendToBatch_appendChildren_appendChild.induct)
  case (1 v a c cc hf bc cs concatAlpha ignoreCache s)
  define r1 where "r1 = (if truthy_str c then updateRenderMode c s else Done s)"
  have h1: "holds P Q r1" unfolding r1_def using U [OF 1(2)] 1(2) by simp
  show ?case
  proof (cases r1)
    case (Abort e s1)
    then show ?thesis using h1 by (simp add: r1_def [symmetric] Let_def)
  next
    case (Done s1)
    then have p1: "P s1" using h1 by simp
    have ih: "holds P Q (appendChildren cs concatAlpha ignoreCache s1)"
      using 1(1) [OF refl _ p1] Done unfolding r1_def by simp
    show ?thesis
    proof (cases "appendChildren cs concatAlpha ignoreCache s1")
      case d2: (Done s2)
      then have "P s2" using ih by simp
      then have "holds P Q (if renderMode s2 \<noteq> renderMode s
                  then updateRenderMode (Some (renderMode s)) s2 else Done s2)"
        using U by simp
      then show ?thesis using Done d2 by (simp add: r1_def [symmetric] Let_def)
    next
      case a2: (Abort e s2)
      then show ?thesis using ih Done by (simp add: r1_def [symmetric] Let_def)
    qed
  qed
next
  case (2 v a c cc hf bc im concatAlpha ignoreCache s)
  then show ?case using PQ by simp
next
  case (3 v a c cc hf bc im concatAlpha ignoreCache s)
  then show ?case using PQ by simp
next
  case (4 v a c cc hf bc concatAlpha ignoreCache s)
  then show ?case using PQ by simp
next
  case (5 concatAlpha ignoreCache s)
  then show ?case by simp
next
  case (6 it rest concatAlpha ignoreCache s)
  have h: "holds P Q (appendChild it concatAlpha ignoreCache s)" by (rule 6(1) [OF 6(3)])
  show ?case
  proof (cases "appendChild it concatAlpha ignoreCache s")
    case (Done s1)
    then have "P s1" using h by simp
    then show ?thesis using 6(2) [OF Done] Done by simp
  next
    case (Abort e s1)
    then show ?thesis using h by simp
  qed
next
  case (7 v a c cc hf bc ct concatAlpha ignoreCache s)
  let ?it = "Item v a c cc hf bc ct"
  let ?uc = "useCache_of ?it ignoreCache"
  show ?case
  proof (cases "\<not> (v \<and> 35 / 10000 < concatAlpha)")
    case True
    then show ?thesis using 7(2) by simp
  next
    case vis: False
    show ?thesis
    proof (cases "?uc = None \<and> autoCaches ?it ignoreCache s")
      case True
      have "holds P Q (andThen (renderBatch s) (\<lambda>s1. Abort ExternalBitmapCache s1))"
        using B [OF 7(2)] by (cases "renderBatch s") (simp_all add: andThen_def)
      then show ?thesis using vis True by simp
    next
      case nc: False
      show ?thesis
      proof (cases "\<exists>cs. ct = Children cs \<and> ?uc = None")
        case True
        then obtain cs where cs: "ct = Children cs" "?uc = None" by blast
        have "holds P Q (appendToBatch (Item v a c cc hf bc (Children cs)) (a * concatAlpha) False s)"
          using 7(1) [OF refl refl _ nc cs(1) cs(2)] vis 7(2) by simp
        then show ?thesis using vis nc cs by simp
      next
        case False
        have "appendChild ?it concatAlpha ignoreCache s = drawLeaf ?it ?uc s"
          using vis nc False by (auto simp: Let_def split: content.splits)
        then show ?thesis using L [OF 7(2)] by simp
      qed
    qed
  qed
qed

lemma tidy_frame: "tidy s s' \<Longrightarrow> frame s s'"
proof -
  assume "tidy s s'"
  then obtain a b c d e f g h i where
    "s' = s\<lparr>batchTextureOutput := a, batchTextureConcat := b, batchTextureTemp := c,
             bufferTextureOutput := d, bufferTextureConcat := e, bufferTextureTemp := f,
             activeShader := g, activeConfig := h, renderPerDraw := i\<rparr>"
    unfolding tidy_def by blast
  then show ?thesis by (simp add: frame_def calm_def)
qed

lemma prepareBuffer_cases:
  "prepareBuffer b s = Some (x, s1) \<Longrightarrow> s1 = s \<or> s1 = snd (getRenderBufferTexture s)"
  by (cases b) (auto simp: prepareBuffer_def split_def Let_def)

lemma immediate_generic:
  assumes E: "\<And>s s'. tidy s s' \<Longrightarrow> P s \<Longrightarrow> P s'"
    and G: "\<And>s. P s \<Longrightarrow> P (snd (getRenderBufferTexture s))"
    and B: "\<And>s. P s \<Longrightarrow> holds P Q (renderBatch s)"
    and C: "\<And>s. P s \<Longrightarrow> holds P Q (drawCover s)"
    and PQ: "\<And>s. P s \<Longrightarrow> Q s"
    and p: "P s"
  shows "holds P Q (immediateBatchRender s)"
proof (cases "prepareBuffer (batchTextureConcat s) s")
  case None
  then show ?thesis using PQ [OF p] by (simp add: immediateBatchRender_def)
next
  case (Some a)
  obtain cbuf s1 where a: "a = (cbuf, s1)" by (cases a)
  have p1: "P s1" using prepareBuffer_cases [of "batchTextureConcat s" s cbuf s1] Some a p G by auto
  let ?s2 = "s1\<lparr>batchTextureConcat := cbuf\<rparr>"
  have p2: "P ?s2" by (rule E [OF _ p1]) (simp add: tidy_def)
  show ?thesis
  proof (cases "prepareBuffer (batchTextureTemp ?s2) ?s2")
    case None
    then show ?thesis using PQ [OF p2] Some a by (simp add: immediateBatchRender_def)
  next
    case (Some a')
    obtain tbuf s3 where a': "a' = (tbuf, s3)" by (cases a')
    have p3: "P s3"
      using prepareBuffer_cases [of "batchTextureTemp ?s2" ?s2 tbuf s3] Some a' p2 G by auto
    let ?s5 = "s3\<lparr>batchTextureTemp := tbuf,
                   batchTextureOutput := batchTextureConcat s3,
                   batchTextureConcat := batchTextureOutput s3,
                   activeShader := mainShader s3\<rparr>"
    have p5: "P ?s5" by (rule E [OF _ p3]) (simp add: tidy_def)
    have eq: "immediateBatchRender s =
        andThen (renderBatch ?s5)
          (\<lambda>s6. case batchTextureOutput s6 of
                  TUndefined \<Rightarrow> Abort TypeError s6
                | TNull \<Rightarrow> Abort TypeError s6
                | _ \<Rightarrow> drawCover s6)"
      using \<open>prepareBuffer (batchTextureConcat s) s = Some a\<close> a Some a'
      by (simp add: immediateBatchRender_def Let_def)
    show ?thesis
      unfolding eq
    proof (rule holds_andThen [OF B [OF p5]])
      fix s6 assume "P s6"
      then show "holds P Q (case batchTextureOutput s6 of
                  TUndefined \<Rightarrow> Abort TypeError s6
                | TNull \<Rightarrow> Abort TypeError s6
                | _ \<Rightarrow> drawCover s6)"
        using C PQ by (simp split: target.splits)
    qed
  qed
qed

lemma draw_generic:
  assumes E: "\<And>s s'. tidy s s' \<Longrightarrow> P s \<Longrightarrow> P s'"
    and E2: "\<And>s s'. tidy s s' \<Longrightarrow> P2 s \<Longrightarrow> P2 s'"
    and G2: "\<And>c s. P2 s \<Longrightarrow> P2 (purgeTextures rd c s)"
    and U: "\<And>m s. P s \<Longrightarrow> holds P Q (updateRenderMode m s)"
    and B2: "\<And>s. P s \<Longrightarrow> holds P2 Q (renderBatch s)"
    and C2: "\<And>s. P2 s \<Longrightarrow> holds P2 Q (drawCover s)"
    and T: "\<And>it a ic s. P s \<Longrightarrow> holds P Q (appendToBatch it a ic s)"
    and p0: "P (s\<lparr>renderPerDraw := 0, batchVertexCount := 0, pending := [],
                   drawID := drawID s + 1\<rparr>)"
  shows "holds P2 Q (draw rd rootNode ic s)"
proof -
  let ?s1 = "s\<lparr>renderPerDraw := 0, batchVertexCount := 0, pending := [], drawID := drawID s + 1\<rparr>"
  let ?s2 = "(if directDraw ?s1 then ?s1\<lparr>batchTextureOutput := TStage\<rparr>
                else ?s1\<lparr>batchTextureOutput := bufferTextureOutput ?s1,
                        batchTextureConcat := bufferTextureConcat ?s1,
                        batchTextureTemp := bufferTextureTemp ?s1\<rparr>)"
  have "tidy ?s1 ?s2" by (simp add: tidy_def)
  then have p2: "P ?s2" using E p0 by blast
  have content: "holds P2 Q (drawContent rootNode ic s3)" if p3: "P s3" for s3
    unfolding drawContent_def
  proof (rule holds_andThen [where P = P])
    have "tidy s3 (s3\<lparr>activeShader := mainShader s3\<rparr>)" by (simp add: tidy_def)
    then have "P (s3\<lparr>activeShader := mainShader s3\<rparr>)" using E p3 by blast
    then show "holds P Q (appendToBatch rootNode (i_alpha rootNode) ic
                 (s3\<lparr>activeShader := mainShader s3\<rparr>))" by (rule T)
    show "holds P2 Q (renderBatch x)" if "P x" for x using that by (rule B2)
  qed
  have first: "holds P2 Q (andThen (updateRenderMode (Some ''source-over'') ?s2)
                    (drawContent rootNode ic))"
    by (rule holds_andThen [OF U [OF p2]]) (rule content)
  have fin: "P2 (let s6 = s5\<lparr>bufferTextureOutput := batchTextureOutput s5,
                                       bufferTextureConcat := batchTextureConcat s5,
                                       bufferTextureTemp := batchTextureTemp s5,
                                       batchTextureOutput := bo,
                                       batchTextureConcat := bc,
                                       batchTextureTemp := bt\<rparr>
                           in (if autoPurge_due (drawID s6) (autoPurge s6)
                                    then purgeTextures rd (autoPurge s6) s6 else s6))"
    if "P2 s5" for s5 bo bc bt
  proof -
    let ?s6 = "s5\<lparr>bufferTextureOutput := batchTextureOutput s5,
                                       bufferTextureConcat := batchTextureConcat s5,
                                       bufferTextureTemp := batchTextureTemp s5,
                                       batchTextureOutput := bo,
                                       batchTextureConcat := bc,
                                       batchTextureTemp := bt\<rparr>"
    have "tidy s5 ?s6" by (simp add: tidy_def)
    then have "P2 ?s6" using E2 that by blast
    then show ?thesis using G2 by (simp add: Let_def)
  qed
  have rest: "holds P2 Q (andThen
                    (if \<not> directDraw s4 \<and> renderPerDraw s4 \<noteq> 0 then drawCover s4 else Done s4)
                    (\<lambda>s5. let s6 = s5\<lparr>bufferTextureOutput := batchTextureOutput s5,
                                       bufferTextureConcat := batchTextureConcat s5,
                                       bufferTextureTemp := batchTextureTemp s5,
                                       batchTextureOutput := bo,
                                       batchTextureConcat := bc,
                                       batchTextureTemp := bt\<rparr>
                           in Done (if autoPurge_due (drawID s6) (autoPurge s6)
                                    then purgeTextures rd (autoPurge s6) s6 else s6)))"
    if p4: "P2 s4" for s4 bo bc bt
  proof (rule holds_andThen [where P = P2])
    show "holds P2 Q (if \<not> directDraw s4 \<and> renderPerDraw s4 \<noteq> 0 then drawCover s4 else Done s4)"
      using C2 [OF p4] p4 by simp
    show "holds P2 Q (let s6 = s5\<lparr>bufferTextureOutput := batchTextureOutput s5,
                                       bufferTextureConcat := batchTextureConcat s5,
                                       bufferTextureTemp := batchTextureTemp s5,
                                       batchTextureOutput := bo,
                                       batchTextureConcat := bc,
                                       batchTextureTemp := bt\<rparr>
                           in Done (if autoPurge_due (drawID s6) (autoPurge s6)
                                    then purgeTextures rd (autoPurge s6) s6 else s6))"
      if "P2 s5" for s5
      using fin [where bo = bo and bc = bc and bt = bt, OF that] by (simp add: Let_def)
  qed
  show ?thesis
    unfolding draw_def Let_def
    by (rule holds_andThen [OF first]) (use rest in \<open>simp add: Let_def\<close>)
qed

section \<open>Batch capacity: proofs\<close>




















section \<open>Blend boundaries: proofs\<close>

lemma housekeeping_consistent: "is_housekeeping ev \<Longrightarrow> flush_consistent ev"
  by (cases ev) simp_all

lemma blend_calm:
  assumes c: "calm s s'" and i: "blend_inv s"
  shows "blend_inv s'"
proof -
  have "flush_consistent ev" if "ev \<in> set (trace s')" for ev
    using that c i housekeeping_consistent unfolding calm_def blend_inv_def by blast
  then show ?thesis using c i by (simp add: calm_def blend_inv_def shaders_consistent_def)
qed

lemma blend_tidy: "tidy s s' \<Longrightarrow> blend_inv s \<Longrightarrow> blend_inv s'"
  using blend_calm frame_calm tidy_frame by blast

lemma shaders_same:
  "builtShaders s' = builtShaders s \<Longrightarrow> shaders_consistent s' = shaders_consistent s"
  by (simp add: shaders_consistent_def)

lemma blend_same:
  "builtShaders s' = builtShaders s \<Longrightarrow> gl_blend s' = gl_blend s
   \<Longrightarrow> renderMode s' = renderMode s \<Longrightarrow> pending s' = pending s
   \<Longrightarrow> batchVertexCount s' = batchVertexCount s \<Longrightarrow> trace s' = trace s
   \<Longrightarrow> blend_inv s \<Longrightarrow> blend_inv s'"
  by (simp add: blend_inv_def shaders_consistent_def)

lemma blend_renderBatch:
  assumes "blend_inv s"
  shows "holds flushed blend_inv (renderBatch s)"
proof (cases "batchVertexCount s \<le> 0")
  case True
  have c: "batchVertexCount s = INDICES_PER_CARD * int (length (pending s))"
    using assms by (simp add: blend_inv_def)
  have "pending s = []" using True unfolding c by (simp add: INDICES_PER_CARD_def)
  then show ?thesis using True assms by (simp add: renderBatch_def flushed_def)
next
  case False
  let ?s1 = "s\<lparr>renderPerDraw := renderPerDraw s + 1\<rparr>"
  have i1: "blend_inv ?s1" using blend_same [OF _ _ _ _ _ _ assms, of ?s1] by simp
  show ?thesis
  proof (cases "activeConfig s")
    case None
    then show ?thesis using False i1 by (simp add: renderBatch_def Let_def)
  next
    case (Some cfg)
    show ?thesis
    proof (cases "activeShader s = None")
      case True
      then show ?thesis using False Some i1 by (simp add: renderBatch_def Let_def)
    next
      case sh: False
      have a: "\<forall>m \<in> set (pending s). m = renderMode s" using assms by (simp add: blend_inv_def)
      have g: "gl_blend s = mode_blend (renderMode s)" using assms by (simp add: blend_inv_def)
      have 1: "\<forall>m \<in> set (pending s). gl_blend s = mode_blend m"
      proof
        fix m assume "m \<in> set (pending s)"
        then have "m = renderMode s" using a by blast
        then show "gl_blend s = mode_blend m" using g by simp
      qed
      have 2: "\<forall>m \<in> set (pending s). \<forall>m' \<in> set (pending s). m = m'"
      proof (intro ballI)
        fix m m' assume "m \<in> set (pending s)" "m' \<in> set (pending s)"
        then have "m = renderMode s" "m' = renderMode s" using a by blast+
        then show "m = m'" by simp
      qed
      have 3: "batchVertexCount s = INDICES_PER_CARD * int (length (pending s))"
        using assms by (simp add: blend_inv_def)
      have fc: "flush_consistent (BatchDrawn (batchVertexCount s) (gl_blend s) (activeShader s)
                        cfg (pending s))"
        unfolding flush_consistent.simps using 1 2 3 by blast
      let ?s2 = "?s1\<lparr>trace := BatchDrawn (batchVertexCount s) (gl_blend s) (activeShader s) cfg
                                (pending s) # trace s,
                      batchVertexCount := 0, pending := [], batchID := batchID s + 1\<rparr>"
      have sc: "shaders_consistent ?s2"
        using assms shaders_same [of ?s2 s] by (simp add: blend_inv_def)
      have tr: "\<forall>ev \<in> set (trace s). flush_consistent ev" using assms by (simp add: blend_inv_def)
      have "blend_inv ?s2"
        unfolding blend_inv_def
      proof (intro conjI)
        show "shaders_consistent ?s2" by (rule sc)
        show "gl_blend ?s2 = mode_blend (renderMode ?s2)" using g by simp
        show "\<forall>x \<in> set (pending ?s2). x = renderMode ?s2" by simp
        show "batchVertexCount ?s2 = INDICES_PER_CARD * int (length (pending ?s2))" by simp
        show "\<forall>ev \<in> set (trace ?s2). flush_consistent ev"
          using tr fc by (simp del: flush_consistent.simps)
      qed
      then have "flushed ?s2" by (simp add: flushed_def)
      moreover have "renderBatch s = Done ?s2"
        using False Some sh by (simp add: renderBatch_def Let_def)
      ultimately show ?thesis by simp
    qed
  qed
qed

lemma blend_renderBatch': "blend_inv s \<Longrightarrow> holds blend_inv blend_inv (renderBatch s)"
  using holds_mono [OF blend_renderBatch, of s blend_inv blend_inv] by (simp add: flushed_def)

lemma mode_of_table:
  assumes "BLEND_SOURCES m = Some b"
  shows "blend_of b = mode_blend m" and "(b_shader b \<noteq> None) = mode_immediate m"
  using assms by (simp_all add: mode_blend_def mode_immediate_def mode_source_def)

lemma blend_drawCover: "blend_inv s \<Longrightarrow> holds blend_inv blend_inv (drawCover s)"
proof -
  assume i: "blend_inv s"
  have "holds blend_inv blend_inv (renderCover (s\<lparr>activeShader := p\<rparr>))" for p
    using i by (simp add: blend_inv_def renderCover_def shaders_consistent_def Let_def)
  then show ?thesis using i by (simp add: drawCover_def split: option.splits)
qed

lemma blend_switchMode:
  assumes i: "blend_inv s" and d: "sd_blend d = mode_blend m"
  shows "holds blend_inv blend_inv (switchMode m d s)"
proof (cases "sd_immediate d \<and> directDraw s")
  case True
  then show ?thesis using i by (simp add: switchMode_def)
next
  case False
  let ?s1 = "if sd_immediate d then s\<lparr>activeConfig := attributeConfig MicroConfig s\<rparr> else s"
  have "blend_inv ?s1" using blend_same [OF _ _ _ _ _ _ i, of ?s1] by simp
  then have b: "holds flushed blend_inv (renderBatch ?s1)" by (rule blend_renderBatch)
  have step: "blend_inv (s2\<lparr>renderMode := m, immediateRender := sd_immediate d,
               gl_blend := sd_blend d\<rparr>)" if f: "flushed s2" for s2
  proof -
    let ?s3 = "s2\<lparr>renderMode := m, immediateRender := sd_immediate d, gl_blend := sd_blend d\<rparr>"
    have sc: "shaders_consistent s2" and tr: "\<forall>ev \<in> set (trace s2). flush_consistent ev"
      and cnt: "batchVertexCount s2 = INDICES_PER_CARD * int (length (pending s2))"
      and e: "pending s2 = []"
      using f unfolding flushed_def blend_inv_def by blast+
    have sc3: "shaders_consistent ?s3" using sc shaders_same [of ?s3 s2] by simp
    show ?thesis
      unfolding blend_inv_def
    proof (intro conjI)
      show "shaders_consistent ?s3" by (rule sc3)
      show "gl_blend ?s3 = mode_blend (renderMode ?s3)" using d by simp
      show "\<forall>x \<in> set (pending ?s3). x = renderMode ?s3" using e by simp
      show "batchVertexCount ?s3 = INDICES_PER_CARD * int (length (pending ?s3))" using cnt by simp
      show "\<forall>ev \<in> set (trace ?s3). flush_consistent ev" using tr by simp
    qed
  qed
  have "holds blend_inv blend_inv
          (andThen (renderBatch ?s1)
             (\<lambda>s2. Done (s2\<lparr>renderMode := m, immediateRender := sd_immediate d,
                             gl_blend := sd_blend d\<rparr>)))"
    by (rule holds_andThen [OF b]) (simp add: step)
  then show ?thesis using False by (auto simp: switchMode_def Let_def)
qed

lemma blend_memo:
  assumes i: "blend_inv s" and b: "sd_blend d = mode_blend m" and im: "sd_immediate d = mode_immediate m"
  shows "blend_inv (s\<lparr>builtShaders := (builtShaders s)(m := Some d)\<rparr>)"
proof -
  have "shaders_consistent (s\<lparr>builtShaders := (builtShaders s)(m := Some d)\<rparr>)"
    using i b im by (simp add: blend_inv_def shaders_consistent_def)
  then show ?thesis using i by (simp add: blend_inv_def)
qed

lemma blend_updateRenderMode:
  assumes i: "blend_inv s"
  shows "holds blend_inv blend_inv (updateRenderMode nm s)"
proof -
  obtain m b where r: "resolveMode nm = (m, b)" by (cases "resolveMode nm")
  have tb: "BLEND_SOURCES m = Some b" by (rule resolveMode_in_table [OF r])
  note mb = mode_of_table(1) [OF tb] and mi = mode_of_table(2) [OF tb]
  have sc: "shaders_consistent s" using i by (simp add: blend_inv_def)
  have known: "holds blend_inv blend_inv (switchMode m d s)" if "builtShaders s m = Some d" for d
  proof -
    have "sd_blend d = mode_blend m" using sc that unfolding shaders_consistent_def by blast
    then show ?thesis by (rule blend_switchMode [OF i])
  qed
  have fresh: "holds blend_inv blend_inv
                 (switchMode m \<lparr>sd_blend = blend_of b, sd_immediate = (b_shader b \<noteq> None),
                   sd_shader = p\<rparr>
                 (s\<lparr>builtShaders := (builtShaders s)(m := Some \<lparr>sd_blend = blend_of b,
                        sd_immediate = (b_shader b \<noteq> None), sd_shader = p\<rparr>)\<rparr>))" for p
  proof -
    let ?d = "\<lparr>sd_blend = blend_of b, sd_immediate = (b_shader b \<noteq> None), sd_shader = p\<rparr>"
    have "blend_inv (s\<lparr>builtShaders := (builtShaders s)(m := Some ?d)\<rparr>)"
      by (rule blend_memo [OF i]) (use mb mi in simp_all)
    then show ?thesis by (rule blend_switchMode) (simp add: mb)
  qed
  have "shaders_consistent (s\<lparr>builtShaders := (builtShaders s)(m := None)\<rparr>)"
    using sc by (simp add: shaders_consistent_def)
  then have forget: "blend_inv (s\<lparr>builtShaders := (builtShaders s)(m := None)\<rparr>)"
    using i by (simp add: blend_inv_def)
  show ?thesis
  proof (cases "renderMode s = m")
    case True
    then show ?thesis using i by (simp add: updateRenderMode_def r)
  next
    case nm: False
    show ?thesis
    proof (cases "builtShaders s m")
      case (Some d)
      then show ?thesis using known nm by (simp add: updateRenderMode_def r)
    next
      case None
      show ?thesis
      proof (cases "b_shader b \<noteq> None \<or> builtShaders s ''source-over'' = None")
        case True
        then show ?thesis
          using None nm fresh [of "CoverProgram (b_shader b)"] forget
          by (simp add: updateRenderMode_def r Let_def)
      next
        case False
        then obtain so where so: "builtShaders s ''source-over'' = Some so" by auto
        show ?thesis
          using None nm False so fresh [of "sd_shader so"]
          by (simp add: updateRenderMode_def r Let_def)
      qed
    qed
  qed
qed

lemma blend_acquire:
  assumes "blend_inv s"
  shows "case acquireTexture img s of
           Acquired t s' \<Rightarrow> blend_inv s' | Skipped s' \<Rightarrow> blend_inv s'
         | Failed e s' \<Rightarrow> blend_inv s'"
  using acquire_calm_generic [of blend_inv s img] blend_calm blend_renderBatch' assms
  by blast

lemma blend_writeQuad:
  assumes i: "blend_inv s"
  shows "holds blend_inv blend_inv (writeQuad img t s)"
proof -
  let ?s1 = "upd_obj img (\<lambda>x. x\<lparr>o_drawID := Some (drawID s)\<rparr>) s"
  have i1: "blend_inv ?s1"
    using blend_same [OF _ _ _ _ _ _ i, of ?s1] by (simp add: upd_obj_def)
  show ?thesis
  proof (cases "activeConfig s")
    case None
    then show ?thesis using i1 by (simp add: writeQuad_def Let_def upd_obj_def)
  next
    case (Some cfg)
    let ?w = "?s1\<lparr>trace := QuadWritten (batchVertexCount s) (renderMode s) cfg
                              (o_activeIndex (heap s t)) # trace s,
                    pending := pending s @ [renderMode s],
                    batchVertexCount := batchVertexCount s + INDICES_PER_CARD\<rparr>"
    have w: "writeQuad img t s = Done ?w"
      using Some by (simp add: writeQuad_def Let_def upd_obj_def)
    have sc: "shaders_consistent s" and g: "gl_blend s = mode_blend (renderMode s)"
      and p: "\<forall>x \<in> set (pending s). x = renderMode s"
      and c: "batchVertexCount s = INDICES_PER_CARD * int (length (pending s))"
      and tr: "\<forall>ev \<in> set (trace s). flush_consistent ev"
      using i unfolding blend_inv_def by blast+
    have "blend_inv ?w"
      unfolding blend_inv_def
    proof (intro conjI)
      show "shaders_consistent ?w" using sc shaders_same [of ?w s] by (simp add: upd_obj_def)
      show "gl_blend ?w = mode_blend (renderMode ?w)" using g by (simp add: upd_obj_def)
      show "\<forall>x \<in> set (pending ?w). x = renderMode ?w" using p by (simp add: upd_obj_def)
      show "batchVertexCount ?w = INDICES_PER_CARD * int (length (pending ?w))"
        using c by (simp add: INDICES_PER_CARD_def)
      show "\<forall>ev \<in> set (trace ?w). flush_consistent ev" using tr by simp
    qed
    then show ?thesis using w by simp
  qed
qed

lemma blend_getRenderBufferTexture:
  "blend_inv s \<Longrightarrow> blend_inv (snd (getRenderBufferTexture s))"
  using blend_calm frame_calm frame_getRenderBufferTexture by blast

lemma blend_immediate: "blend_inv s \<Longrightarrow> holds blend_inv blend_inv (immediateBatchRender s)"
  using immediate_generic [of blend_inv blend_inv s] blend_tidy blend_getRenderBufferTexture
    blend_renderBatch' blend_drawCover by blast

lemma blend_leaf:
  assumes "blend_inv s"
  shows "holds blend_inv blend_inv (drawLeaf it uc s)"
proof (rule leaf_generic [where R = blend_inv and R' = blend_inv])
  show "holds blend_inv blend_inv (updateRenderMode m s)" if "blend_inv s" for m s
    using that by (rule blend_updateRenderMode)
  show "holds blend_inv blend_inv (overflowCheck s)" if "blend_inv s" for s
    using that blend_renderBatch' by (simp add: overflowCheck_def)
  show "blend_inv s" if "blend_inv s" for s
    using that .
  show "case acquireTexture img s of Acquired t s' \<Rightarrow> blend_inv s'
        | Skipped s' \<Rightarrow> blend_inv s' | Failed e s' \<Rightarrow> blend_inv s'"
    if "blend_inv s" for img s
    using that by (rule blend_acquire)
  show "blend_inv (upd_obj img (\<lambda>x. x\<lparr>o_drawID := d\<rparr>) s)" if "blend_inv s" for img d s
    using blend_same [OF _ _ _ _ _ _ that, of "upd_obj img (\<lambda>x. x\<lparr>o_drawID := d\<rparr>) s"]
    by (simp add: upd_obj_def)
  show "holds blend_inv blend_inv (writeQuad img t s)" if "blend_inv s" for img t s
    using that by (rule blend_writeQuad)
  show "holds blend_inv blend_inv (immediateBatchRender (s\<lparr>activeConfig := c\<rparr>))"
    if "blend_inv s" for c s
    using blend_same [OF _ _ _ _ _ _ that, of "s\<lparr>activeConfig := c\<rparr>"]
    by (intro blend_immediate) simp
  show "blend_inv s" by (rule assms)
qed

lemma blend_traversal:
  "blend_inv s \<Longrightarrow> holds blend_inv blend_inv (appendToBatch it a ic s)"
  using traversal_generic(1) [of blend_inv blend_inv s it a ic]
    blend_updateRenderMode holds_state [OF blend_renderBatch'] blend_leaf by blast

lemma blend_purge: "blend_inv s \<Longrightarrow> blend_inv (purgeTextures rd c s)"
  using blend_calm frame_calm frame_purgeTextures by blast

lemma blend_draw:
  assumes sc: "shaders_consistent s" and gb: "gl_blend s = mode_blend (renderMode s)"
    and tr: "\<forall>ev \<in> set (trace s). flush_consistent ev"
  shows "holds blend_inv blend_inv (draw rd rootNode ic s)"
proof (rule draw_generic [where P = blend_inv])
  show "blend_inv s'" if "tidy s s'" "blend_inv s" for s s'
    using that by (rule blend_tidy)
  then show "blend_inv s'" if "tidy s s'" "blend_inv s" for s s'
    using that by blast
  show "blend_inv (purgeTextures rd c s)" if "blend_inv s" for c s
    using that by (rule blend_purge)
  show "holds blend_inv blend_inv (updateRenderMode m s)" if "blend_inv s" for m s
    using that by (rule blend_updateRenderMode)
  show "holds blend_inv blend_inv (renderBatch s)" if "blend_inv s" for s
    using that by (rule blend_renderBatch')
  show "holds blend_inv blend_inv (drawCover s)" if "blend_inv s" for s
    using that by (rule blend_drawCover)
  show "holds blend_inv blend_inv (appendToBatch it a ic s)" if "blend_inv s" for it a ic s
    using that by (rule blend_traversal)
  show "blend_inv (s\<lparr>renderPerDraw := 0, batchVertexCount := 0, pending := [],
                   drawID := drawID s + 1\<rparr>)"
    unfolding blend_inv_def
  proof (intro conjI)
    let ?s1 = "s\<lparr>renderPerDraw := 0, batchVertexCount := 0, pending := [],
                   drawID := drawID s + 1\<rparr>"
    show "shaders_consistent ?s1" using sc shaders_same [of ?s1 s] by simp
    show "gl_blend ?s1 = mode_blend (renderMode ?s1)" using gb by simp
    show "\<forall>x \<in> set (pending ?s1). x = renderMode ?s1" by simp
    show "batchVertexCount ?s1 = INDICES_PER_CARD * int (length (pending ?s1))" by simp
    show "\<forall>ev \<in> set (trace ?s1). flush_consistent ev" using tr by simp
  qed
qed

section \<open>Texture slots: proofs\<close>










lemma idle_same:
  "batchID s' = batchID s \<Longrightarrow> heap s' = heap s
   \<Longrightarrow> trace s' = trace s \<Longrightarrow> idle s \<Longrightarrow> idle s'"
  by (simp add: idle_def evictions_safe_def)























section \<open>The constructor and the demonstration stages\<close>

lemmas draw_defs =
  draw_def drawContent_def drawCover_def renderCover_def autoPurge_due_def purge_modulus_def
  wrap_int32_def js_trunc_def js_falsy_def

lemma initMaterials_fresh:
  assumes "initMaterials g (createBuffers ((field_defaults compiles)\<lparr>autoPurge := ap, directDraw := dd,
             gl_blend := default_blend\<rparr>)) = Inr s1"
  shows "fresh s1 \<and> renderMode s1 = [] \<and> gl_blend s1 = default_blend
     \<and> builtShaders s1 = (\<lambda>m. None)"
  using assms
  by (auto simp: fresh_def initMaterials_def createBuffers_def field_defaults_def createTexture_def
        upd_obj_def new_obj_def Let_def split: sum.splits)



lemma new_StageGL_steps:
  assumes "new_StageGL opts compiles g = Inr s0"
  shows "\<exists>s1 s2 s3.
     fresh s1 \<and> renderMode s1 = [] \<and> gl_blend s1 = default_blend
     \<and> builtShaders s1 = (\<lambda>m. None)
     \<and> updateRenderMode (Some ''source-over'') s1 = Done s2
     \<and> (s3 = s2 \<or> s3 = (snd (getRenderBufferTexture s2))
                         \<lparr>bufferTextureOutput := TTex (fst (getRenderBufferTexture s2))\<rparr>)
     \<and> s0 = s3\<lparr>maxBatchVertexCount := maxBatchVertexCount_of (opt_batchSize opts)\<rparr>"
proof -
  let ?i = "(field_defaults compiles)
                 \<lparr>autoPurge := constructed_autoPurge (opt_autoPurge opts),
                  directDraw := (case opt_directDraw opts of None \<Rightarrow> True | Some d \<Rightarrow> d),
                  gl_blend := default_blend\<rparr>"
  obtain s1 where i: "initMaterials g (createBuffers ?i) = Inr s1"
    using assms by (auto simp: new_StageGL_def Let_def split: sum.splits)
  obtain s2 where u: "updateRenderMode (Some ''source-over'') s1 = Done s2"
    using assms i by (auto simp: new_StageGL_def Let_def split: outcome.splits)
  have e: "s0 = (if \<not> directDraw s2
                 then (snd (getRenderBufferTexture s2))
                         \<lparr>bufferTextureOutput := TTex (fst (getRenderBufferTexture s2))\<rparr>
                 else s2)\<lparr>maxBatchVertexCount := maxBatchVertexCount_of (opt_batchSize opts)\<rparr>"
    using assms i u by (auto simp: new_StageGL_def Let_def split_def)
  show ?thesis using initMaterials_fresh [OF i] u e by (cases "directDraw s2") auto
qed




lemma mode_blend_empty: "mode_blend [] = default_blend"
  by (simp add: mode_blend_def mode_source_def default_blend_def BLEND_SOURCES_def
        BLEND_SOURCES_table_def)

lemma new_StageGL_blend:
  assumes "new_StageGL opts compiles g = Inr s0"
  shows "blend_inv s0"
proof -
  obtain s1 s2 s3 where f1: "fresh s1" and rm: "renderMode s1 = []"
    and gb: "gl_blend s1 = default_blend" and bs: "builtShaders s1 = (\<lambda>m. None)"
    and u: "updateRenderMode (Some ''source-over'') s1 = Done s2"
    and s3: "s3 = s2 \<or> s3 = (snd (getRenderBufferTexture s2))
                         \<lparr>bufferTextureOutput := TTex (fst (getRenderBufferTexture s2))\<rparr>"
    and s0: "s0 = s3\<lparr>maxBatchVertexCount := maxBatchVertexCount_of (opt_batchSize opts)\<rparr>"
    using new_StageGL_steps [OF assms] by blast
  have sc: "shaders_consistent s1" using bs by (simp add: shaders_consistent_def)
  have "blend_inv s1"
    unfolding blend_inv_def
  proof (intro conjI)
    show "shaders_consistent s1" by (rule sc)
    show "gl_blend s1 = mode_blend (renderMode s1)" using gb rm mode_blend_empty by simp
    show "\<forall>m \<in> set (pending s1). m = renderMode s1" using f1 by (simp add: fresh_def)
    show "batchVertexCount s1 = INDICES_PER_CARD * int (length (pending s1))"
      using f1 by (simp add: fresh_def)
    show "\<forall>ev \<in> set (trace s1). flush_consistent ev" using f1 by (simp add: fresh_def)
  qed
  then have b2: "blend_inv s2" using blend_updateRenderMode [of s1 "Some ''source-over''"] u by simp
  have "tidy (snd (getRenderBufferTexture s2))
          ((snd (getRenderBufferTexture s2))\<lparr>bufferTextureOutput := x\<rparr>)" for x
    by (simp add: tidy_def)
  then have "blend_inv s3"
    using s3 b2 blend_tidy blend_getRenderBufferTexture by blast
  then show ?thesis unfolding s0 using blend_same [of s0 s3] s0 by simp
qed

section \<open>Capacity, slots and blend boundaries: the claims\<close>



lemma blend_place_images: "blend_inv s \<Longrightarrow> blend_inv (place_images s)"
  using blend_same [of "place_images s" s] by (simp add: place_images_def)















lemma switchMode_flush:
  assumes "switchMode m d s = Done s1" and "renderMode s1 \<noteq> renderMode s"
    and "0 < batchVertexCount s" and "activeConfig s = Some cfg"
  shows "trace s1 = BatchDrawn (batchVertexCount s) (gl_blend s) (activeShader s)
                      (if immediateRender s1 then MicroConfig else cfg) (pending s) # trace s
     \<and> activeShader s \<noteq> None \<and> batchVertexCount s1 = 0 \<and> pending s1 = []
     \<and> batchID s1 = batchID s + 1"
  using assms
  by (auto simp: switchMode_def renderBatch_def andThen_def Let_def attributeConfig_def
        split: if_splits option.splits)

lemma updateRenderMode_flush:
  assumes u: "updateRenderMode nm s = Done s1" and ne: "renderMode s1 \<noteq> renderMode s"
    and c: "0 < batchVertexCount s" and a: "activeConfig s = Some cfg"
  shows "trace s1 = BatchDrawn (batchVertexCount s) (gl_blend s) (activeShader s)
                      (if immediateRender s1 then MicroConfig else cfg) (pending s) # trace s
     \<and> activeShader s \<noteq> None \<and> batchVertexCount s1 = 0 \<and> pending s1 = []
     \<and> batchID s1 = batchID s + 1"
proof -
  obtain m b where r: "resolveMode nm = (m, b)" by (cases "resolveMode nm")
  have via: "?thesis" if "switchMode m d (s\<lparr>builtShaders := x\<rparr>) = Done s1" for d x
    using switchMode_flush [OF that, of cfg] ne c a by simp
  have via0: "?thesis" if "switchMode m d s = Done s1" for d
    using switchMode_flush [OF that ne c a] .
  show ?thesis
  proof (cases "renderMode s = m")
    case True
    then show ?thesis using u ne by (simp add: updateRenderMode_def r)
  next
    case nm: False
    show ?thesis
    proof (cases "builtShaders s m")
      case (Some d)
      then show ?thesis using via0 [of d] u nm by (simp add: updateRenderMode_def r)
    next
      case None
      show ?thesis
      proof (cases "b_shader b \<noteq> None \<or> builtShaders s ''source-over'' = None")
        case True
        show ?thesis
        proof (cases "gl_compiles s (CoverProgram (b_shader b))")
          case ok: True
          then show ?thesis
            using None nm True u via by (simp add: updateRenderMode_def r Let_def)
        next
          case False
          then show ?thesis
            using None nm True u ne by (auto simp: updateRenderMode_def r Let_def)
        qed
      next
        case False
        then obtain so where so: "builtShaders s ''source-over'' = Some so" by auto
        show ?thesis
          using None nm False so u via by (simp add: updateRenderMode_def r Let_def)
      qed
    qed
  qed
qed

text \<open>
  C2: when \<open>_updateRenderMode\<close> switches the mode of a stage that has quads pending,
  it issues one draw call for all of them, under the blend state of the mode they were
  appended under and under the active program, before the blend state becomes the new
  mode's; afterwards nothing is pending. The attribute configuration of that draw call,
  however, is the micro configuration whenever the new mode is an immediate one:
  \<open>_activeConfig\<close> is switched before \<open>_renderBatch\<close> is called, so the flush uploads
  and draws the micro array and not the arrays the pending quads were written into.
\<close>

theorem C2_flush_at_mode_switch:
  assumes "blend_inv s" and "updateRenderMode newMode s = Done s1"
    and "renderMode s1 \<noteq> renderMode s"
    and "0 < batchVertexCount s" and "activeConfig s = Some cfg"
  shows "trace s1 = BatchDrawn (batchVertexCount s) (mode_blend (renderMode s)) (activeShader s)
                      (if immediateRender s1 then MicroConfig else cfg) (pending s) # trace s
     \<and> (\<forall>q \<in> set (pending s). q = renderMode s)
     \<and> activeShader s \<noteq> None
     \<and> gl_blend s1 = mode_blend (renderMode s1)
     \<and> batchVertexCount s1 = 0 \<and> pending s1 = [] \<and> batchID s1 = batchID s + 1
     \<and> blend_inv s1"
proof -
  have f: "trace s1 = BatchDrawn (batchVertexCount s) (gl_blend s) (activeShader s)
                      (if immediateRender s1 then MicroConfig else cfg) (pending s) # trace s
     \<and> activeShader s \<noteq> None \<and> batchVertexCount s1 = 0 \<and> pending s1 = []
     \<and> batchID s1 = batchID s + 1"
    by (rule updateRenderMode_flush [OF assms(2-5)])
  have g: "gl_blend s = mode_blend (renderMode s)" and p: "\<forall>q \<in> set (pending s). q = renderMode s"
    using assms(1) unfolding blend_inv_def by blast+
  have i1: "blend_inv s1"
    using blend_updateRenderMode [OF assms(1), of newMode] assms(2) by simp
  then have g1: "gl_blend s1 = mode_blend (renderMode s1)" unfolding blend_inv_def by blast
  show ?thesis using f g p i1 g1 by simp
qed

lemma buffered_eq:
  "new_StageGL buffered_options demo_driver 8 = Inr s \<Longrightarrow> buffered_stage = place_images s"
  by (simp add: buffered_stage_def)

lemma buffered_quad_eq:
  "appendToBatch (group [bitmap 100]) 1 False buffered_stage = Done buffered_quad_stage"
  unfolding buffered_quad_stage_def buffered_stage_def
  by (simp add: batch_defs ctor_defs buffered_options_def)

lemma buffered_quad_fields:
  "activeConfig buffered_quad_stage = Some DefaultConfig"
  "activeShader buffered_quad_stage = Some (BatchProgram 1)"
  "batchVertexCount buffered_quad_stage = 6"
  "renderMode buffered_quad_stage = ''source-over''"
  "directDraw buffered_quad_stage = False"
  "pending buffered_quad_stage = [''source-over'']"
  "trace buffered_quad_stage =
     [QuadWritten 0 ''source-over'' DefaultConfig (Some 0), SlotEvicted 0 (Some 0) None 0]"
  unfolding buffered_quad_stage_def buffered_stage_def
  by (simp_all add: batch_defs ctor_defs buffered_options_def)

lemma buffered_switch:
  "updateRenderMode (Some ''multiply'') buffered_quad_stage
     = Done (state_of (updateRenderMode (Some ''multiply'') buffered_quad_stage))
   \<and> renderMode (state_of (updateRenderMode (Some ''multiply'') buffered_quad_stage)) = ''multiply''
   \<and> immediateRender (state_of (updateRenderMode (Some ''multiply'') buffered_quad_stage))"
  unfolding buffered_quad_stage_def buffered_stage_def
  by (simp add: batch_defs ctor_defs buffered_options_def
        resolveMode_known [OF BLEND_SOURCES_multiply] shader_src_def)

lemma buffered_draw:
  "draw Fin (group [bitmap 100, blended 101 ''multiply'']) False buffered_stage
     = Abort TypeError
         (state_of (draw Fin (group [bitmap 100, blended 101 ''multiply'']) False buffered_stage))
   \<and> trace (state_of (draw Fin (group [bitmap 100, blended 101 ''multiply'']) False
                        buffered_stage)) =
   [QuadWritten 0 ''multiply'' MicroConfig (Some 0),
    SlotEvicted 0 (Some 103) (Some 0) 1,
    BatchDrawn 6 default_blend (Some (BatchProgram 1)) MicroConfig [''source-over''],
    QuadWritten 0 ''source-over'' DefaultConfig (Some 0),
    SlotEvicted 0 (Some 0) None 0]"
  unfolding buffered_stage_def
  by (simp add: buffered_options_def blended_def batch_defs ctor_defs draw_defs
        BLEND_SOURCES_multiply resolveMode_known shader_src_def immediateBatchRender_def
        prepareBuffer_def)

lemma mode_blend_source_over: "mode_blend ''source-over'' = default_blend"
  by (simp add: mode_blend_def mode_source_def BLEND_SOURCES_source_over default_blend_def)

theorem C2_flush_at_mode_switch_witness:
  "blend_inv buffered_quad_stage
   \<and> appendToBatch (group [bitmap 100]) 1 False buffered_stage = Done buffered_quad_stage
   \<and> updateRenderMode (Some ''multiply'') buffered_quad_stage
       = Done (state_of (updateRenderMode (Some ''multiply'') buffered_quad_stage))
   \<and> renderMode buffered_quad_stage = ''source-over''
   \<and> renderMode (state_of (updateRenderMode (Some ''multiply'') buffered_quad_stage)) = ''multiply''
   \<and> 0 < batchVertexCount buffered_quad_stage
   \<and> activeConfig buffered_quad_stage = Some DefaultConfig
   \<and> trace buffered_quad_stage =
       [QuadWritten 0 ''source-over'' DefaultConfig (Some 0), SlotEvicted 0 (Some 0) None 0]
   \<and> trace (state_of (updateRenderMode (Some ''multiply'') buffered_quad_stage)) =
       [BatchDrawn 6 default_blend (Some (BatchProgram 1)) MicroConfig [''source-over''],
        QuadWritten 0 ''source-over'' DefaultConfig (Some 0), SlotEvicted 0 (Some 0) None 0]
   \<and> gl_blend (state_of (updateRenderMode (Some ''multiply'') buffered_quad_stage))
       = mode_blend ''multiply''
   \<and> trace (state_of (draw Fin (group [bitmap 100, blended 101 ''multiply'']) False
                        buffered_stage)) =
       [QuadWritten 0 ''multiply'' MicroConfig (Some 0),
        SlotEvicted 0 (Some 103) (Some 0) 1,
        BatchDrawn 6 default_blend (Some (BatchProgram 1)) MicroConfig [''source-over''],
        QuadWritten 0 ''source-over'' DefaultConfig (Some 0),
        SlotEvicted 0 (Some 0) None 0]"
proof -
  obtain s where n: "new_StageGL buffered_options demo_driver 8 = Inr s"
    by (simp add: ctor_defs buffered_options_def)
  have "blend_inv buffered_stage"
    unfolding buffered_eq [OF n] by (rule blend_place_images [OF new_StageGL_blend [OF n]])
  then have b: "blend_inv buffered_quad_stage"
    using blend_traversal [of buffered_stage "group [bitmap 100]" 1 False] buffered_quad_eq
    by simp
  have t: "trace (state_of (updateRenderMode (Some ''multiply'') buffered_quad_stage)) =
       [BatchDrawn 6 default_blend (Some (BatchProgram 1)) MicroConfig [''source-over''],
        QuadWritten 0 ''source-over'' DefaultConfig (Some 0), SlotEvicted 0 (Some 0) None 0]
     \<and> gl_blend (state_of (updateRenderMode (Some ''multiply'') buffered_quad_stage))
       = mode_blend ''multiply''"
    using C2_flush_at_mode_switch [of buffered_quad_stage "Some ''multiply''"
            "state_of (updateRenderMode (Some ''multiply'') buffered_quad_stage)" DefaultConfig]
      b buffered_switch
    by (simp add: buffered_quad_fields mode_blend_source_over)
  show ?thesis
    using b buffered_quad_eq buffered_switch t buffered_draw
    by (simp add: buffered_quad_fields)
qed


section \<open>Texture resource manager: proofs\<close>

lemma remove1_len2: "2 \<le> length data \<Longrightarrow> remove1 f data \<noteq> []"
  by (cases data) (auto split: if_splits)

lemma trace_upd_obj [simp]: "trace (upd_obj r g s) = trace s"
  by (simp add: upd_obj_def)

lemma heap_upd_obj: "heap (upd_obj r g s) = (heap s)(r := g (heap s r))"
  by (simp add: upd_obj_def)

lemma dict_upd_obj [simp]: "textureDictionary (upd_obj r g s) = textureDictionary s"
  by (simp add: upd_obj_def)

lemma trace_kill: "trace (killTextureObject (Some t) s) = TextureDeleted t # trace s"
  by (simp add: killTextureObject_def Let_def upd_obj_def split: option.splits)

text \<open>
  C7: safe release of an image source \<open>f\<close> whose \<open>_storeID\<close> points at texture \<open>t\<close> with
  owning-source list \<open>data\<close>. The call returns normally, takes one occurrence of \<open>f\<close> out
  of the list and clears \<open>f._storeID\<close>; the texture is deleted exactly when the list is
  empty afterwards; otherwise nothing is deleted and the dictionary is unchanged. A list
  of two or more sources is never empty after one release.
\<close>

theorem C7_safe_release:
  assumes sid: "o_storeID (heap s f) = Some k"
    and dict: "js_get (textureDictionary s) (Some k) = Some t"
    and neq: "t \<noteq> f"
    and data: "o_imageData (heap s t) = Some data"
  shows "releaseTexture (RObject f) True s = Done (state_of (releaseTexture (RObject f) True s))
     \<and> (trace (state_of (releaseTexture (RObject f) True s)) = TextureDeleted t # trace s
          \<longleftrightarrow> remove1 f data = [])
     \<and> (remove1 f data \<noteq> [] \<longrightarrow>
          trace (state_of (releaseTexture (RObject f) True s)) = trace s
          \<and> textureDictionary (state_of (releaseTexture (RObject f) True s)) = textureDictionary s
          \<and> o_imageData (heap (state_of (releaseTexture (RObject f) True s)) t)
              = Some (remove1 f data)
          \<and> o_storeID (heap (state_of (releaseTexture (RObject f) True s)) f) = None)
     \<and> (2 \<le> length data \<longrightarrow> remove1 f data \<noteq> [])"
proof -
  have ne: "js_get (textureDictionary s) (Some k) \<noteq> Some f" using dict neq by simp
  have r: "releaseObject f True s =
      Done (let s2 = upd_obj f (\<lambda>x. x\<lparr>o_storeID := None\<rparr>)
                       (upd_obj t (\<lambda>x. x\<lparr>o_imageData := Some (remove1 f data)\<rparr>) s)
            in if remove1 f data = [] then killTextureObject (Some t) s2 else s2)"
    using sid dict ne data by (simp add: releaseObject_def releaseFound_def Let_def)
  show ?thesis
    using neq by (simp add: r Let_def trace_kill heap_upd_obj remove1_len2)
qed


lemma stale_if_upd [simp]:
  "stale rd c d (if x = a then (h a)\<lparr>o_storeID := None\<rparr> else h x) = stale rd c d (h x)"
  by (simp add: stale_def)



lemma obj_imageData_same: "x\<lparr>o_imageData := o_imageData x\<rparr> = x"
  by simp







lemma clear_storeIDs_Nil [simp]: "clear_storeIDs [] h = h"
  by (simp add: clear_storeIDs_def)














lemmas shared_stage_eval =
  shared_stage_def field_defaults_def new_obj_def js_get_def js_set_def upd_obj_def Let_def

theorem C7_safe_release_witness:
  "o_storeID (heap shared_stage 1) = Some 0
   \<and> js_get (textureDictionary shared_stage) (Some 0) = Some 0 \<and> (0::nat) \<noteq> 1
   \<and> o_imageData (heap shared_stage 0) = Some [1, 2] \<and> 2 \<le> length [1::nat, 2]
   \<and> releaseTexture (RObject 1) True shared_stage
        = Done (state_of (releaseTexture (RObject 1) True shared_stage))
   \<and> trace (state_of (releaseTexture (RObject 1) True shared_stage)) = []
   \<and> o_imageData (heap (state_of (releaseTexture (RObject 1) True shared_stage)) 0) = Some [2]
   \<and> trace (state_of (releaseTexture (RObject 2) True
               (state_of (releaseTexture (RObject 1) True shared_stage)))) = [TextureDeleted 0]"
proof -
  have h: "o_storeID (heap shared_stage 1) = Some 0
     \<and> js_get (textureDictionary shared_stage) (Some 0) = Some 0
     \<and> o_imageData (heap shared_stage 0) = Some [1, 2]"
    by (simp add: shared_stage_eval)
  have two: "trace (state_of (releaseTexture (RObject 2) True
               (state_of (releaseTexture (RObject 1) True shared_stage)))) = [TextureDeleted 0]"
    by (simp add: shared_stage_eval releaseObject_def releaseFound_def killTextureObject_def
          clear_storeIDs_def)
  have tr: "trace shared_stage = []" by (simp add: shared_stage_eval)
  show ?thesis
    using C7_safe_release [of shared_stage 1 0 0 "[1, 2]"] h two tr by simp
qed




end
